theory Spec2Isabelle
  imports Complex_Main "HOL-Library.Word" "HOL-Library.Multiset"
begin

section \<open>Data model\<close>

text \<open>
  The records of \<^verbatim>\<open>types.ts\<close>, read off the fields that \<^verbatim>\<open>db.ts\<close>, \<^verbatim>\<open>App.tsx\<close> and
  \<^verbatim>\<open>utils.ts\<close> use. A JavaScript object may lack its \<^verbatim>\<open>id\<close> property (the functions of
  \<^verbatim>\<open>db.ts\<close> take \<^verbatim>\<open>Omit<_, 'id'>\<close> and cast), so \<open>id\<close> is optional: \<open>None\<close> is the
  absent property. The amount of a record is a JavaScript number once it is stored and
  the form's string before \<^verbatim>\<open>Number\<close> has read it, so the records take the type of the
  amount as a parameter.
\<close>

subsection \<open>JavaScript numbers\<close>

text \<open>
  A JavaScript number is an IEEE 754 binary64 value: a finite value (by the rational it
  denotes; \<open>Fin 0\<close> is \<open>+0\<close>), \<open>-0\<close>, the two infinities or \<open>NaN\<close>. A finite double is
  \<open>m * 2 ^ e\<close> with \<open>\<bar>m\<bar> < 2 ^ 53\<close> and \<open>- 1074 \<le> e \<le> 971\<close>.
\<close>

datatype double = Fin rat | NegZero | PosInfinity | NegInfinity | NaN

text \<open>\<open>\<lfloor>log\<^sub>2 n\<rfloor>\<close> of a positive natural number, and of a positive rational.\<close>

fun log2floor :: "nat \<Rightarrow> nat" where
  "log2floor n = (if n < 2 then 0 else Suc (log2floor (n div 2)))"

declare log2floor.simps [simp del]

definition ilog2 :: "rat \<Rightarrow> int" where
  "ilog2 x =
     (if 1 \<le> x then int (log2floor (nat \<lfloor>x\<rfloor>))
      else - int (Suc (log2floor (nat \<lceil>1 / x\<rceil> - 1))))"

text \<open>
  The unit in the last place of the doubles around \<open>x\<close>: 53 significant bits, and the
  subnormal spacing \<open>2 ^ - 1074\<close> at the bottom.
\<close>

definition lastPlace :: "rat \<Rightarrow> rat" where
  "lastPlace x = 2 powi max (ilog2 \<bar>x\<bar> - 52) (- 1074)"

definition roundHalfEven :: "rat \<Rightarrow> int" where
  "roundHalfEven n =
     (let f = \<lfloor>n\<rfloor>
      in if n - of_int f < 1 / 2 then f
         else if 1 / 2 < n - of_int f then f + 1
         else if even f then f else f + 1)"

text \<open>
  The double nearest to a real number, ties to even: beyond the largest double it is an
  infinity, below the smallest a zero of the number's sign.
\<close>

definition roundToDouble :: "rat \<Rightarrow> double" where
  "roundToDouble x =
     (if x = 0 then Fin 0
      else
        (let y = of_int (roundHalfEven (\<bar>x\<bar> / lastPlace x)) * lastPlace x
         in if 2 ^ 1024 \<le> y then (if 0 < x then PosInfinity else NegInfinity)
            else if y = 0 then (if 0 < x then Fin 0 else NegZero)
            else Fin (if 0 < x then y else - y)))"

text \<open>\<^verbatim>\<open>x + y\<close>, \<^verbatim>\<open>-x\<close>, \<^verbatim>\<open>x - y\<close>, \<^verbatim>\<open>Math.abs(x)\<close> and \<^verbatim>\<open>x < y\<close> on numbers.\<close>

fun Number_add :: "double \<Rightarrow> double \<Rightarrow> double" where
  "Number_add NaN y = NaN"
| "Number_add x NaN = NaN"
| "Number_add PosInfinity NegInfinity = NaN"
| "Number_add NegInfinity PosInfinity = NaN"
| "Number_add PosInfinity y = PosInfinity"
| "Number_add x PosInfinity = PosInfinity"
| "Number_add NegInfinity y = NegInfinity"
| "Number_add x NegInfinity = NegInfinity"
| "Number_add NegZero NegZero = NegZero"
| "Number_add NegZero (Fin b) = roundToDouble b"
| "Number_add (Fin a) NegZero = roundToDouble a"
| "Number_add (Fin a) (Fin b) = roundToDouble (a + b)"

fun Number_unaryMinus :: "double \<Rightarrow> double" where
  "Number_unaryMinus NaN = NaN"
| "Number_unaryMinus PosInfinity = NegInfinity"
| "Number_unaryMinus NegInfinity = PosInfinity"
| "Number_unaryMinus NegZero = Fin 0"
| "Number_unaryMinus (Fin a) = (if a = 0 then NegZero else Fin (- a))"

definition Number_subtract :: "double \<Rightarrow> double \<Rightarrow> double" where
  "Number_subtract x y = Number_add x (Number_unaryMinus y)"

fun Math_abs :: "double \<Rightarrow> double" where
  "Math_abs NaN = NaN"
| "Math_abs PosInfinity = PosInfinity"
| "Math_abs NegInfinity = PosInfinity"
| "Math_abs NegZero = Fin 0"
| "Math_abs (Fin a) = Fin \<bar>a\<bar>"

fun Number_lessThan :: "double \<Rightarrow> double \<Rightarrow> bool" where
  "Number_lessThan NaN y = False"
| "Number_lessThan x NaN = False"
| "Number_lessThan PosInfinity y = False"
| "Number_lessThan x PosInfinity = True"
| "Number_lessThan x NegInfinity = False"
| "Number_lessThan NegInfinity y = True"
| "Number_lessThan NegZero NegZero = False"
| "Number_lessThan NegZero (Fin b) = (0 < b)"
| "Number_lessThan (Fin a) NegZero = (a < 0)"
| "Number_lessThan (Fin a) (Fin b) = (a < b)"

text \<open>The real number a finite double denotes (0 for the others), to state sums.\<close>

fun valueOf :: "double \<Rightarrow> rat" where
  "valueOf (Fin a) = a"
| "valueOf d = 0"

subsection \<open>Records\<close>

datatype PaymentMethod = Cash | Cheque | Online

datatype SignatureType = typed | drawn | uploaded

record 'n Receipt =
  id :: "nat option"
  receiptNumber :: string
  name :: string
  blockNumber :: string
  amount :: 'n
  date :: string
  forMonth :: string
  paymentMethod :: PaymentMethod

record 'n Expense =
  id :: "nat option"
  date :: string
  description :: string
  amount :: 'n

record Settings =
  id :: "nat option"
  adminName :: string
  blockNumber :: string
  signatureType :: SignatureType
  typedSignature :: string
  drawnSignature :: string
  uploadedSignature :: string

record Credentials =
  username :: string
  passwordHash :: string

section \<open>The object stores of \<^verbatim>\<open>db.ts\<close>\<close>

text \<open>
  \<^verbatim>\<open>getDB\<close> declares four object stores: \<^verbatim>\<open>receipts\<close> and \<^verbatim>\<open>expenses\<close> with
  \<^verbatim>\<open>keyPath: 'id', autoIncrement: true\<close> (\<^verbatim>\<open>receipts\<close> with a unique index on
  \<^verbatim>\<open>receiptNumber\<close>), \<^verbatim>\<open>settings\<close> with \<^verbatim>\<open>keyPath: 'id'\<close> and \<^verbatim>\<open>auth\<close> with
  \<^verbatim>\<open>keyPath: 'username'\<close>. An auto-increment store is its entries in ascending key order
  and its key generator; the two stores with caller-supplied keys are maps.
\<close>

datatype DBError = ConstraintViolation | DataError

record 'v ObjectStore =
  entries :: "(nat \<times> 'v) list"
  keyGen :: nat

record DB =
  receipts :: "double Receipt ObjectStore"
  expenses :: "double Expense ObjectStore"
  settings :: "nat \<rightharpoonup> Settings"
  auth :: "string \<rightharpoonup> Credentials"

text \<open>The database as \<^verbatim>\<open>upgrade\<close> creates it: every store empty, key generators at 1.\<close>

definition emptyDB :: DB where
  "emptyDB = \<lparr>receipts = \<lparr>entries = [], keyGen = 1\<rparr>,
              expenses = \<lparr>entries = [], keyGen = 1\<rparr>,
              settings = Map.empty, auth = Map.empty\<rparr>"

text \<open>
  Modelled from the spec: the browser's object store behind \<^verbatim>\<open>db.get\<close>, \<^verbatim>\<open>db.getAll\<close>,
  \<^verbatim>\<open>db.add\<close> and \<^verbatim>\<open>db.put\<close> (the \<^verbatim>\<open>idb\<close> library) is not among the sources. \<open>get\<close>
  returns the record of an exact key or nothing; \<open>getAll\<close> returns every record; \<open>add\<close>
  inserts a new record under the record's own key or, where it has none, under the next
  generated key, which it writes into the record, and fails with \<open>ConstraintViolation\<close>
  when the key is taken or the unique index on the receipt number would be duplicated,
  leaving the store as it was; \<open>put\<close> inserts or replaces under the record's explicit key.
\<close>

definition db_getAll_receipts :: "DB \<Rightarrow> double Receipt list" where
  "db_getAll_receipts s = map snd (entries (receipts s))"

definition db_get_receipts :: "nat \<Rightarrow> DB \<Rightarrow> double Receipt option" where
  "db_get_receipts key s = map_of (entries (receipts s)) key"

text \<open>
  Modelled from the spec: \<^verbatim>\<open>db.add('receipts', _)\<close> of the object store, which is not
  among the sources. The key is the record's \<open>id\<close> or, where it has none, the key
  generator's value; a taken key or a receipt number already in the unique index is a
  \<open>ConstraintViolation\<close> and changes nothing; otherwise the record is stored with its
  key written into \<open>id\<close> and the key generator moves past the key.
\<close>

definition db_add_receipts :: "double Receipt \<Rightarrow> DB \<Rightarrow> DBError + nat \<times> DB" where
  "db_add_receipts v s =
     (let st = receipts s;
          key = (case Receipt.id v of Some k \<Rightarrow> k | None \<Rightarrow> keyGen st)
      in if key \<in> set (map fst (entries st)) then Inl ConstraintViolation
         else if receiptNumber v \<in> set (map (receiptNumber \<circ> snd) (entries st))
         then Inl ConstraintViolation
         else Inr (key, s\<lparr>receipts :=
                \<lparr>entries = insort_key fst (key, v\<lparr>Receipt.id := Some key\<rparr>) (entries st),
                 keyGen = max (keyGen st) (key + 1)\<rparr>\<rparr>))"

definition db_getAll_expenses :: "DB \<Rightarrow> double Expense list" where
  "db_getAll_expenses s = map snd (entries (expenses s))"

definition db_add_expenses :: "double Expense \<Rightarrow> DB \<Rightarrow> DBError + nat \<times> DB" where
  "db_add_expenses v s =
     (let st = expenses s;
          key = (case Expense.id v of Some k \<Rightarrow> k | None \<Rightarrow> keyGen st)
      in if key \<in> set (map fst (entries st)) then Inl ConstraintViolation
         else Inr (key, s\<lparr>expenses :=
                \<lparr>entries = insort_key fst (key, v\<lparr>Expense.id := Some key\<rparr>) (entries st),
                 keyGen = max (keyGen st) (key + 1)\<rparr>\<rparr>))"

definition db_get_settings :: "nat \<Rightarrow> DB \<Rightarrow> Settings option" where
  "db_get_settings key s = settings s key"

definition db_put_settings :: "Settings \<Rightarrow> DB \<Rightarrow> DBError + nat \<times> DB" where
  "db_put_settings v s =
     (case Settings.id v of
        None \<Rightarrow> Inl DataError
      | Some key \<Rightarrow> Inr (key, s\<lparr>settings := (settings s)(key \<mapsto> v)\<rparr>))"

definition db_get_auth :: "string \<Rightarrow> DB \<Rightarrow> Credentials option" where
  "db_get_auth key s = auth s key"

definition db_put_auth :: "Credentials \<Rightarrow> DB \<Rightarrow> string \<times> DB" where
  "db_put_auth v s = (username v, s\<lparr>auth := (auth s)(username v \<mapsto> v)\<rparr>)"

subsection \<open>The exported functions of \<^verbatim>\<open>db.ts\<close>\<close>

definition getAuthCredentials :: "string \<Rightarrow> DB \<Rightarrow> Credentials option" where
  "getAuthCredentials usernm s = db_get_auth usernm s"

definition saveAuthCredentials :: "string \<Rightarrow> string \<Rightarrow> DB \<Rightarrow> string \<times> DB" where
  "saveAuthCredentials usernm pwHash s =
     db_put_auth \<lparr>username = usernm, passwordHash = pwHash\<rparr> s"

definition getAllReceipts :: "DB \<Rightarrow> double Receipt list" where
  "getAllReceipts s = db_getAll_receipts s"

definition addReceipt :: "double Receipt \<Rightarrow> DB \<Rightarrow> DBError + nat \<times> DB" where
  "addReceipt receipt s = db_add_receipts receipt s"

definition getReceipt :: "nat \<Rightarrow> DB \<Rightarrow> double Receipt option" where
  "getReceipt k s = db_get_receipts k s"

definition getAllExpenses :: "DB \<Rightarrow> double Expense list" where
  "getAllExpenses s = db_getAll_expenses s"

definition addExpense :: "double Expense \<Rightarrow> DB \<Rightarrow> DBError + nat \<times> DB" where
  "addExpense expense s = db_add_expenses expense s"

text \<open>Settings are stored with a fixed key.\<close>

definition getSettings :: "DB \<Rightarrow> Settings option" where
  "getSettings s = db_get_settings 1 s"

text \<open>\<^verbatim>\<open>db.put('settings', { ...settings, id: 1 })\<close>\<close>

definition saveSettings :: "Settings \<Rightarrow> DB \<Rightarrow> DBError + nat \<times> DB" where
  "saveSettings x s = db_put_settings (x\<lparr>Settings.id := Some 1\<rparr>) s"

text \<open>
  A run of the data-access layer: any sequence of calls of its four writing functions,
  a failed call leaving the database as it was. Every flow of \<^verbatim>\<open>App.tsx\<close> writes
  through these four.
\<close>

datatype Op =
    SaveAuthCredentials string string
  | AddReceipt "double Receipt"
  | AddExpense "double Expense"
  | SaveSettings Settings

fun step :: "DB \<Rightarrow> Op \<Rightarrow> DB" where
  "step s (SaveAuthCredentials u h) = snd (saveAuthCredentials u h s)"
| "step s (AddReceipt r) = (case addReceipt r s of Inl e \<Rightarrow> s | Inr (k, s') \<Rightarrow> s')"
| "step s (AddExpense x) = (case addExpense x s of Inl e \<Rightarrow> s | Inr (k, s') \<Rightarrow> s')"
| "step s (SaveSettings x) = (case saveSettings x s of Inl e \<Rightarrow> s | Inr (k, s') \<Rightarrow> s')"

definition run :: "Op list \<Rightarrow> DB" where
  "run ops = foldl step emptyDB ops"

section \<open>Hashing utility of \<^verbatim>\<open>App.tsx\<close>\<close>

text \<open>
  \<^verbatim>\<open>Number.prototype.toString(radix)\<close> on a natural number, \<^verbatim>\<open>String(n)\<close> (radix 10) and
  \<^verbatim>\<open>String.prototype.padStart\<close>.
\<close>

definition digitChar :: "nat \<Rightarrow> char" where
  "digitChar d = ''0123456789abcdefghijklmnopqrstuvwxyz'' ! d"

function toString :: "nat \<Rightarrow> nat \<Rightarrow> string" where
  "toString radix n =
     (if radix < 2 \<or> n < radix then [digitChar n]
      else toString radix (n div radix) @ [digitChar (n mod radix)])"
  by pat_completeness auto
termination
  by (relation "measure (\<lambda>(radix, n). n)") auto

declare toString.simps [simp del]

definition String :: "nat \<Rightarrow> string" where
  "String n = toString 10 n"

definition padStart :: "nat \<Rightarrow> string \<Rightarrow> string \<Rightarrow> string" where
  "padStart targetLength padString str =
     (let fillLen = targetLength - length str
      in if fillLen = 0 \<or> padString = [] then str
         else take fillLen (concat (replicate fillLen padString)) @ str)"

text \<open>
  \<^verbatim>\<open>sha256\<close>: the UTF-8 bytes of the message, the platform's digest
  (\<^verbatim>\<open>crypto.subtle.digest('SHA-256', _)\<close>, a parameter here), and each byte of the result
  as two lowercase hexadecimal digits.
\<close>

type_synonym byte = "8 word"

definition TextEncoder_encode :: "string \<Rightarrow> byte list" where
  "TextEncoder_encode message = map of_char message"

definition sha256 :: "(byte list \<Rightarrow> byte list) \<Rightarrow> string \<Rightarrow> string" where
  "sha256 digest message =
     (let msgBuffer = TextEncoder_encode message;
          hashBuffer = digest msgBuffer;
          hashArray = map unat hashBuffer
      in concat (map (\<lambda>b. padStart 2 ''0'' (toString 16 b)) hashArray))"

section \<open>\<^verbatim>\<open>AuthProvider\<close>\<close>

record AuthState =
  isAuthenticated :: bool
  sessionStorage :: "string \<rightharpoonup> string"

definition checkAuth ::
  "(byte list \<Rightarrow> byte list) \<Rightarrow> AuthState \<times> DB \<Rightarrow> AuthState \<times> DB" where
  "checkAuth digest st =
     (let a = fst st; s = snd st;
          storedAuth = sessionStorage a ''isAuthenticated'';
          a' = (if storedAuth = Some ''true'' then a\<lparr>isAuthenticated := True\<rparr> else a)
      in case getAuthCredentials ''admin'' s of
           None \<Rightarrow>
             (let defaultPasswordHash = sha256 digest ''google''
              in (a', snd (saveAuthCredentials ''admin'' defaultPasswordHash s)))
         | Some credentials \<Rightarrow> (a', s))"

definition login ::
  "(byte list \<Rightarrow> byte list) \<Rightarrow> string \<Rightarrow> string \<Rightarrow> AuthState \<Rightarrow> DB \<Rightarrow> bool \<times> AuthState" where
  "login digest user pass a s =
     (if user = ''admin'' then
        (case getAuthCredentials ''admin'' s of
           Some credentials \<Rightarrow>
             (let passHash = sha256 digest pass
              in if passHash = passwordHash credentials
                 then (True, a\<lparr>isAuthenticated := True,
                               sessionStorage := (sessionStorage a)(''isAuthenticated'' \<mapsto> ''true'')\<rparr>)
                 else (False, a))
         | None \<Rightarrow> (False, a))
      else (False, a))"

section \<open>\<^verbatim>\<open>SettingsProvider\<close>\<close>

definition defaultSettings :: Settings where
  "defaultSettings =
     \<lparr>Settings.id = None, adminName = ''Admin'', blockNumber = ''Society Office'',
      signatureType = typed, typedSignature = ''For Neelkanth Society'',
      drawnSignature = '''', uploadedSignature = ''''\<rparr>"

text \<open>
  \<^verbatim>\<open>loadSettings\<close> returns the record it hands to \<^verbatim>\<open>setSettings\<close> (the context's
  settings) and the database.
\<close>

definition loadSettings :: "DB \<Rightarrow> DBError + Settings \<times> DB" where
  "loadSettings s =
     (case getSettings s of
        Some currentSettings \<Rightarrow> Inr (currentSettings, s)
      | None \<Rightarrow>
          (case saveSettings defaultSettings s of
             Inl e \<Rightarrow> Inl e
           | Inr (k, s') \<Rightarrow> Inr (defaultSettings\<lparr>Settings.id := Some 1\<rparr>, s')))"

section \<open>\<^verbatim>\<open>NewReceiptPage\<close>\<close>

text \<open>
  The form hands its values over as strings, and \<^verbatim>\<open>Number(data.amount)\<close> reads the amount.
  \<^verbatim>\<open>Number\<close> is the platform's conversion of a string to a number: it is not among the
  sources and is a parameter of the functions that call it.
\<close>

text \<open>\<^verbatim>\<open>fetchLastReceipt\<close>: the receipt count the page holds once its effect has run.\<close>

definition fetchLastReceipt :: "DB \<Rightarrow> nat" where
  "fetchLastReceipt s = length (getAllReceipts s)"

definition NewReceiptPage_receiptNumber :: "nat \<Rightarrow> string" where
  "NewReceiptPage_receiptNumber receiptCount =
     ''NSM-'' @ padStart 4 ''0'' (String (receiptCount + 1))"

text \<open>
  \<^verbatim>\<open>{ ...data, receiptNumber, amount: Number(data.amount) }\<close>: every property of the
  form's data, with the page's receipt number and the amount read as a number.
\<close>

definition NewReceiptPage_newReceipt ::
  "(string \<Rightarrow> double) \<Rightarrow> nat \<Rightarrow> string Receipt \<Rightarrow> double Receipt" where
  "NewReceiptPage_newReceipt Number receiptCount data =
     \<lparr>Receipt.id = Receipt.id data,
      receiptNumber = NewReceiptPage_receiptNumber receiptCount,
      name = name data, blockNumber = Receipt.blockNumber data,
      amount = Number (Receipt.amount data),
      date = Receipt.date data, forMonth = forMonth data,
      paymentMethod = paymentMethod data\<rparr>"

definition NewReceiptPage_onSubmit ::
  "(string \<Rightarrow> double) \<Rightarrow> nat \<Rightarrow> string Receipt \<Rightarrow> DB \<Rightarrow> DBError + nat \<times> DB" where
  "NewReceiptPage_onSubmit Number receiptCount data s =
     (let newReceipt = NewReceiptPage_newReceipt Number receiptCount data
      in addReceipt newReceipt s)"

text \<open>
  A receipt creation: the page is mounted, its effect reads the receipt count, the form
  is submitted.
\<close>

definition Receipts_create ::
  "(string \<Rightarrow> double) \<Rightarrow> string Receipt \<Rightarrow> DB \<Rightarrow> DBError + nat \<times> DB" where
  "Receipts_create Number data s = NewReceiptPage_onSubmit Number (fetchLastReceipt s) data s"

text \<open>Creating one receipt after the other, each from a freshly mounted page.\<close>

fun Receipts_createAll :: "(string \<Rightarrow> double) \<Rightarrow> string Receipt list \<Rightarrow> DB \<Rightarrow> DB" where
  "Receipts_createAll Number [] s = s"
| "Receipts_createAll Number (d # ds) s =
     (case Receipts_create Number d s of Inl e \<Rightarrow> Receipts_createAll Number ds s
      | Inr (k, s') \<Rightarrow> Receipts_createAll Number ds s')"

text \<open>The value of a string of decimal digits, to read a receipt number's sequence back.\<close>

definition isDigit :: "char \<Rightarrow> bool" where
  "isDigit c = (48 \<le> (of_char c :: nat) \<and> (of_char c :: nat) \<le> 57)"

definition decimalValue :: "string \<Rightarrow> nat" where
  "decimalValue ds = foldl (\<lambda>a c. 10 * a + (of_char c - 48)) 0 ds"

section \<open>\<^verbatim>\<open>ExpensesPage\<close> and \<^verbatim>\<open>exportExpensesToPdf\<close>\<close>

datatype Mode = mode_add | mode_subtract

text \<open>
  \<^verbatim>\<open>addExpense({ ...data, amount })\<close> with the amount read by \<^verbatim>\<open>Number\<close>, negated in
  mode \<^verbatim>\<open>subtract\<close>.
\<close>

definition ExpensesPage_onSubmit ::
  "(string \<Rightarrow> double) \<Rightarrow> Mode \<Rightarrow> string Expense \<Rightarrow> DB \<Rightarrow> DBError + nat \<times> DB" where
  "ExpensesPage_onSubmit Number mode data s =
     (let amt = (if mode = mode_add then Number (Expense.amount data)
                 else Number_unaryMinus (Number (Expense.amount data)))
      in addExpense \<lparr>Expense.id = Expense.id data, date = Expense.date data,
                     description = description data, amount = amt\<rparr> s)"

text \<open>The net balance of the page: \<^verbatim>\<open>expenses.reduce((sum, e) => sum + e.amount, 0)\<close>.\<close>

definition totalExpenses :: "double Expense list \<Rightarrow> double" where
  "totalExpenses xs = foldl (\<lambda>sum e. Number_add sum (Expense.amount e)) (Fin 0) xs"

text \<open>The three summary lines of the expense report.\<close>

definition totalIncome :: "double Expense list \<Rightarrow> double" where
  "totalIncome xs =
     foldl (\<lambda>sum e. Number_add sum (Expense.amount e)) (Fin 0)
       (filter (\<lambda>e. Number_lessThan (Fin 0) (Expense.amount e)) xs)"

definition totalExpense :: "double Expense list \<Rightarrow> double" where
  "totalExpense xs =
     foldl (\<lambda>sum e. Number_add sum (Math_abs (Expense.amount e))) (Fin 0)
       (filter (\<lambda>e. Number_lessThan (Expense.amount e) (Fin 0)) xs)"

definition netBalance :: "double Expense list \<Rightarrow> double" where
  "netBalance xs = Number_subtract (totalIncome xs) (totalExpense xs)"

section \<open>\<^verbatim>\<open>SettingsPage\<close> and \<^verbatim>\<open>ChangePasswordForm\<close>\<close>

text \<open>The signature pad, as far as \<^verbatim>\<open>onSubmit\<close> reads it.\<close>

record SignatureCanvas =
  isEmpty :: bool
  toDataURL :: string

text \<open>\<^verbatim>\<open>settings?.field || ''\<close>\<close>

definition orEmpty :: "string option \<Rightarrow> string" where
  "orEmpty v = (case v of None \<Rightarrow> '''' | Some x \<Rightarrow> x)"

text \<open>
  \<^verbatim>\<open>SettingsPage.onSubmit\<close>: \<open>ctx\<close> is the context's settings, \<open>sigPad\<close> is
  \<^verbatim>\<open>sigPad.current\<close>, \<open>data\<close> the form's values. It returns what the following
  \<^verbatim>\<open>loadSettings\<close> does.
\<close>

definition SettingsPage_onSubmit ::
  "Settings option \<Rightarrow> SignatureCanvas option \<Rightarrow> Settings \<Rightarrow> DB \<Rightarrow> DBError + Settings \<times> DB" where
  "SettingsPage_onSubmit ctx sigPad data s =
     (let drawnSig =
            (case sigPad of
               Some pad \<Rightarrow>
                 (if \<not> isEmpty pad then toDataURL pad
                  else orEmpty (map_option drawnSignature ctx))
             | None \<Rightarrow> orEmpty (map_option drawnSignature ctx));
          settingsToSave =
            data\<lparr>drawnSignature := drawnSig,
                 uploadedSignature := orEmpty (map_option uploadedSignature ctx)\<rparr>
      in case saveSettings settingsToSave s of
           Inl e \<Rightarrow> Inl e
         | Inr (k, s') \<Rightarrow> loadSettings s')"

datatype MessageType = success | error

datatype Message = Message MessageType string

text \<open>
  \<^verbatim>\<open>ChangePasswordForm.onSubmit\<close>: the message the form shows afterwards (\<open>None\<close> is
  \<^verbatim>\<open>null\<close>) and the database.
\<close>

definition ChangePasswordForm_onSubmit ::
  "(byte list \<Rightarrow> byte list) \<Rightarrow> string \<Rightarrow> string \<Rightarrow> DB \<Rightarrow> Message option \<times> DB" where
  "ChangePasswordForm_onSubmit digest currentPassword newPassword s =
     (case getAuthCredentials ''admin'' s of
        Some credentials \<Rightarrow>
          (let currentPassHash = sha256 digest currentPassword
           in if currentPassHash \<noteq> passwordHash credentials
              then (Some (Message error ''Current password is not correct.''), s)
              else (let newPassHash = sha256 digest newPassword
                    in (Some (Message success ''Password updated successfully!''),
                        snd (saveAuthCredentials ''admin'' newPassHash s))))
      | None \<Rightarrow> (None, s))"

section \<open>Invariants used in the proofs\<close>

text \<open>
  After \<open>n\<close> receipts created one after the other from the empty database, the keys are
  \<open>1..n\<close>, the key generator stands at \<open>n + 1\<close> and the receipt numbers are the first \<open>n\<close>
  of the numbering.
\<close>

definition seqInv :: "nat \<Rightarrow> DB \<Rightarrow> bool" where
  "seqInv n s =
     (map fst (entries (receipts s)) = [1..<Suc n] \<and> keyGen (receipts s) = Suc n \<and>
      map receiptNumber (getAllReceipts s) = map NewReceiptPage_receiptNumber [0..<n])"

text \<open>
  In every database the key generator is above every key of the receipts store, and the
  receipt numbers are pairwise distinct.
\<close>

definition receiptsInv :: "DB \<Rightarrow> bool" where
  "receiptsInv s =
     (list_all (\<lambda>x. fst x < keyGen (receipts s)) (entries (receipts s)) \<and>
      distinct (map receiptNumber (getAllReceipts s)))"

text \<open>In every database the key generator is above every key of the expenses store.\<close>

definition expensesInv :: "DB \<Rightarrow> bool" where
  "expensesInv s = list_all (\<lambda>x. fst x < keyGen (expenses s)) (entries (expenses s))"

section \<open>Facts about numerals as strings\<close>

lemma digitChar_upto: "list_all (\<lambda>d. (of_char (digitChar d) :: nat) = 48 + d) [0..<10]"
  by (simp add: digitChar_def upt_rec)

lemma of_char_digitChar: "n < 10 \<Longrightarrow> (of_char (digitChar n) :: nat) = 48 + n"
  using digitChar_upto by (simp add: list_all_iff)

lemma isDigit_digitChar: "n < 10 \<Longrightarrow> isDigit (digitChar n)"
  by (simp add: isDigit_def of_char_digitChar)

lemma decimalValue_snoc: "decimalValue (ds @ [c]) = 10 * decimalValue ds + (of_char c - 48)"
  by (simp add: decimalValue_def)

lemma decimalValue_toString: "decimalValue (toString 10 n) = n"
proof (induction n rule: less_induct)
  case (less n)
  show ?case
  proof (cases "n < 10")
    case True
    then show ?thesis
      by (simp add: toString.simps [of 10 n] decimalValue_def of_char_digitChar)
  next
    case False
    then have "n div 10 < n" by simp
    then have "decimalValue (toString 10 (n div 10)) = n div 10" by (rule less.IH)
    with False show ?thesis
      by (simp add: toString.simps [of 10 n] decimalValue_snoc of_char_digitChar)
  qed
qed

lemma digits_toString: "list_all isDigit (toString 10 n)"
proof (induction n rule: less_induct)
  case (less n)
  show ?case
  proof (cases "n < 10")
    case True
    then show ?thesis
      by (simp add: toString.simps [of 10 n] isDigit_digitChar)
  next
    case False
    then have "n div 10 < n" by simp
    then have "list_all isDigit (toString 10 (n div 10))" by (rule less.IH)
    with False show ?thesis
      by (simp add: toString.simps [of 10 n] isDigit_digitChar)
  qed
qed

lemma length_toString_lt: "n < 10 ^ k \<Longrightarrow> 0 < k \<Longrightarrow> length (toString 10 n) \<le> k"
proof (induction k arbitrary: n)
  case 0
  then show ?case by simp
next
  case (Suc k)
  show ?case
  proof (cases "n < 10")
    case True
    then show ?thesis by (simp add: toString.simps [of 10 n])
  next
    case False
    then have k: "0 < k" using Suc.prems by (cases k) auto
    have "n div 10 < 10 ^ k" using Suc.prems by (simp add: less_mult_imp_div_less mult.commute)
    then have "length (toString 10 (n div 10)) \<le> k" using k by (rule Suc.IH)
    with False show ?thesis by (simp add: toString.simps [of 10 n])
  qed
qed

lemma concat_replicate_single: "concat (replicate k [c]) = replicate k c"
  by (induction k) simp_all

lemma padStart_zero: "padStart w ''0'' str = replicate (w - length str) CHR ''0'' @ str"
  by (simp add: padStart_def Let_def concat_replicate_single)

lemma decimalValue_zeros: "decimalValue (replicate k CHR ''0'' @ ds) = decimalValue ds"
  by (induction k) (simp_all add: decimalValue_def)

lemma digits_zeros: "list_all isDigit (replicate k CHR ''0'')"
  by (induction k) (simp_all add: isDigit_def)

lemma receiptNumber_shape:
  "\<exists>ds. NewReceiptPage_receiptNumber c = ''NSM-'' @ ds \<and> list_all isDigit ds \<and>
        decimalValue ds = c + 1 \<and> 4 \<le> length ds \<and> (c + 1 < 10000 \<longrightarrow> length ds = 4)"
proof -
  let ?ds = "padStart 4 ''0'' (String (c + 1))"
  have 1: "list_all isDigit ?ds"
    by (simp add: padStart_zero String_def digits_toString digits_zeros)
  have 2: "decimalValue ?ds = c + 1"
    by (simp add: padStart_zero String_def decimalValue_zeros decimalValue_toString)
  have 3: "4 \<le> length ?ds" by (simp add: padStart_zero)
  have 4: "c + 1 < 10000 \<longrightarrow> length ?ds = 4"
  proof
    assume "c + 1 < 10000"
    then have "c + 1 < 10 ^ 4" by simp
    then have "length (toString 10 (c + 1)) \<le> 4" by (rule length_toString_lt) simp
    then show "length ?ds = 4" by (simp add: padStart_zero String_def)
  qed
  show ?thesis
    using 1 2 3 4 by (intro exI [of _ ?ds]) (simp add: NewReceiptPage_receiptNumber_def)
qed

lemma receiptNumber_inj: "NewReceiptPage_receiptNumber a = NewReceiptPage_receiptNumber b \<Longrightarrow> a = b"
proof -
  assume h: "NewReceiptPage_receiptNumber a = NewReceiptPage_receiptNumber b"
  have "\<And>c. decimalValue (drop 4 (NewReceiptPage_receiptNumber c)) = c + 1"
    by (simp add: NewReceiptPage_receiptNumber_def padStart_zero String_def decimalValue_zeros decimalValue_toString)
  then have "a + 1 = b + 1" using h by metis
  then show ?thesis by simp
qed

lemma receiptNumber_0: "NewReceiptPage_receiptNumber 0 = ''NSM-0001''"
  by (simp add: NewReceiptPage_receiptNumber_def String_def padStart_zero toString.simps digitChar_def eval_nat_numeral)

lemma receiptNumber_1: "NewReceiptPage_receiptNumber 1 = ''NSM-0002''"
  by (simp add: NewReceiptPage_receiptNumber_def String_def padStart_zero toString.simps digitChar_def eval_nat_numeral)

section \<open>Facts about the receipts store\<close>

lemma insort_key_last:
  "\<forall>x\<in>set xs. fst x < k \<Longrightarrow> insort_key fst (k, v) xs = xs @ [(k, v)]"
  by (induction xs) auto

lemma map_of_insort_key:
  "k \<notin> fst ` set xs \<Longrightarrow> map_of (insort_key fst (k, v) xs) k = Some v"
  by (induction xs) auto

lemma addReceipt_Inr:
  assumes "addReceipt r s = Inr (k, s')"
  shows "k = (case Receipt.id r of Some i \<Rightarrow> i | None \<Rightarrow> keyGen (receipts s))"
    and "k \<notin> fst ` set (entries (receipts s))"
    and "receiptNumber r \<notin> set (map receiptNumber (getAllReceipts s))"
    and "s' = s\<lparr>receipts := \<lparr>entries = insort_key fst (k, r\<lparr>Receipt.id := Some k\<rparr>) (entries (receipts s)),
                            keyGen = max (keyGen (receipts s)) (k + 1)\<rparr>\<rparr>"
  using assms
  by (auto simp add: addReceipt_def db_add_receipts_def getAllReceipts_def db_getAll_receipts_def
        Let_def split: if_splits)

lemma addReceipt_Inl:
  "addReceipt r s = Inl e \<Longrightarrow> e = ConstraintViolation"
  by (auto simp add: addReceipt_def db_add_receipts_def Let_def split: if_splits)

lemma addReceipt_duplicate:
  "receiptNumber r \<in> set (map receiptNumber (getAllReceipts s)) \<Longrightarrow>
     addReceipt r s = Inl ConstraintViolation"
  by (auto simp add: addReceipt_def db_add_receipts_def getAllReceipts_def db_getAll_receipts_def
        Let_def)

lemma addReceipt_fresh:
  "Receipt.id r = None \<Longrightarrow> \<forall>x\<in>set (entries (receipts s)). fst x < keyGen (receipts s) \<Longrightarrow>
   receiptNumber r \<notin> set (map receiptNumber (getAllReceipts s)) \<Longrightarrow>
   addReceipt r s =
     Inr (keyGen (receipts s),
          s\<lparr>receipts := \<lparr>entries = entries (receipts s) @
                                      [(keyGen (receipts s), r\<lparr>Receipt.id := Some (keyGen (receipts s))\<rparr>)],
                          keyGen = Suc (keyGen (receipts s))\<rparr>\<rparr>)"
  by (auto simp add: addReceipt_def db_add_receipts_def getAllReceipts_def db_getAll_receipts_def
        Let_def insort_key_last)

lemma getReceipt_added:
  assumes "addReceipt r s = Inr (k, s')"
  shows "getReceipt k s' = Some (r\<lparr>Receipt.id := Some k\<rparr>)"
  using addReceipt_Inr(2) [OF assms]
  by (simp add: addReceipt_Inr(4) [OF assms] getReceipt_def db_get_receipts_def map_of_insort_key)

lemma getAllReceipts_added:
  assumes "addReceipt r s = Inr (k, s')"
  shows "mset (getAllReceipts s') = add_mset (r\<lparr>Receipt.id := Some k\<rparr>) (mset (getAllReceipts s))"
  by (simp add: addReceipt_Inr(4) [OF assms] getAllReceipts_def db_getAll_receipts_def)

section \<open>Facts about the credential store\<close>

lemma getAuth_save:
  "getAuthCredentials u (snd (saveAuthCredentials u h s)) = Some \<lparr>username = u, passwordHash = h\<rparr>"
  by (simp add: getAuthCredentials_def saveAuthCredentials_def db_get_auth_def db_put_auth_def)

lemma getAuth_other:
  "getAuthCredentials u emptyDB = None"
  by (simp add: getAuthCredentials_def db_get_auth_def emptyDB_def)

lemma checkAuth_seeds:
  "getAuthCredentials ''admin'' s = None \<Longrightarrow>
     snd (checkAuth digest (a, s)) = snd (saveAuthCredentials ''admin'' (sha256 digest ''google'') s)"
  by (simp add: checkAuth_def Let_def)

lemma checkAuth_keeps:
  "getAuthCredentials ''admin'' s = Some c \<Longrightarrow> snd (checkAuth digest (a, s)) = s"
  by (simp add: checkAuth_def Let_def)

lemma checkAuth_idem: "checkAuth digest (checkAuth digest st) = checkAuth digest st"
  by (cases st) (auto simp add: checkAuth_def Let_def getAuth_save split: option.splits)

lemma checkAuth_pow: "(checkAuth digest ^^ Suc n) st = checkAuth digest st"
  by (induction n) (simp_all add: checkAuth_idem)

lemma sha256_rev_google: "sha256 rev ''google'' = ''656c676f6f67''"
  by (simp add: sha256_def TextEncoder_encode_def padStart_def toString.simps digitChar_def)

lemma sha256_rev_secret1: "sha256 rev ''secret1'' = ''31746572636573''"
  by (simp add: sha256_def TextEncoder_encode_def padStart_def toString.simps digitChar_def)

lemma sha256_rev_wrong: "sha256 rev ''wrong'' = ''676e6f7277''"
  by (simp add: sha256_def TextEncoder_encode_def padStart_def toString.simps digitChar_def)

section \<open>Facts about the settings store and runs\<close>

lemma saveSettings_Inr:
  "saveSettings x s = Inr (1, s\<lparr>settings := (settings s)(1 \<mapsto> x\<lparr>Settings.id := Some 1\<rparr>)\<rparr>)"
  by (simp add: saveSettings_def db_put_settings_def)

lemma getSettings_put:
  "getSettings (s\<lparr>settings := m\<rparr>) = m 1"
  by (simp add: getSettings_def db_get_settings_def)

lemma getSettings_emptyDB: "getSettings emptyDB = None"
  by (simp add: getSettings_def db_get_settings_def emptyDB_def)

lemma loadSettings_Some: "getSettings s = Some r \<Longrightarrow> loadSettings s = Inr (r, s)"
  by (simp add: loadSettings_def)

lemma loadSettings_None:
  "getSettings s = None \<Longrightarrow>
     loadSettings s = Inr (defaultSettings\<lparr>Settings.id := Some 1\<rparr>,
                          s\<lparr>settings := (settings s)(1 \<mapsto> defaultSettings\<lparr>Settings.id := Some 1\<rparr>)\<rparr>)"
  by (simp add: loadSettings_def saveSettings_Inr)

lemma loadSettings_stored:
  "loadSettings s0 = Inr (cur, s) \<Longrightarrow> getSettings s = Some cur"
  by (cases "getSettings s0") (auto simp add: loadSettings_None loadSettings_Some getSettings_put)

lemma run_snoc: "run (ops @ [op]) = step (run ops) op"
  by (simp add: run_def)

lemma run_Nil: "run [] = emptyDB"
  by (simp add: run_def)

lemma settings_saveAuth: "settings (snd (saveAuthCredentials u h s)) = settings s"
  by (simp add: saveAuthCredentials_def db_put_auth_def)

lemma settings_addReceipt: "addReceipt r s = Inr (k, s') \<Longrightarrow> settings s' = settings s"
  by (auto simp add: addReceipt_def db_add_receipts_def Let_def split: if_splits)

lemma settings_addExpense: "addExpense x s = Inr (k, s') \<Longrightarrow> settings s' = settings s"
  by (auto simp add: addExpense_def db_add_expenses_def Let_def split: if_splits)

lemma settings_step:
  "settings (step s op) =
     (case op of SaveSettings x \<Rightarrow> (settings s)(1 \<mapsto> x\<lparr>Settings.id := Some 1\<rparr>) | _ \<Rightarrow> settings s)"
proof (cases op)
  case (SaveAuthCredentials u h)
  then show ?thesis by (simp add: settings_saveAuth)
next
  case (AddReceipt r)
  then show ?thesis
    by (cases "addReceipt r s") (auto simp add: settings_addReceipt)
next
  case (AddExpense x)
  then show ?thesis
    by (cases "addExpense x s") (auto simp add: settings_addExpense)
next
  case (SaveSettings x)
  then show ?thesis by (simp add: saveSettings_Inr)
qed

lemma settings_run_key:
  "settings (run ops) k = Some r \<Longrightarrow> k = 1 \<and> Settings.id r = Some 1"
proof (induction ops arbitrary: k r rule: rev_induct)
  case Nil
  then show ?case by (simp add: run_Nil emptyDB_def)
next
  case (snoc op ops)
  have "settings (run (ops @ [op])) =
          (case op of SaveSettings x \<Rightarrow> (settings (run ops))(1 \<mapsto> x\<lparr>Settings.id := Some 1\<rparr>)
           | _ \<Rightarrow> settings (run ops))"
    by (simp only: run_snoc settings_step)
  with snoc show ?case
    by (cases op) (auto split: if_splits)
qed

lemma dom_settings_run: "dom (settings (run ops)) \<subseteq> {1}"
proof
  fix k assume "k \<in> dom (settings (run ops))"
  then obtain r where "settings (run ops) k = Some r" by blast
  then have "k = 1" using settings_run_key by blast
  then show "k \<in> {1}" by simp
qed

section \<open>Facts about receipt creation and runs\<close>

lemma emptyDB_receipts: "getAllReceipts emptyDB = []"
  by (simp add: getAllReceipts_def db_getAll_receipts_def emptyDB_def)


lemma seqInv_emptyDB: "seqInv 0 emptyDB"
  by (simp add: seqInv_def emptyDB_def getAllReceipts_def db_getAll_receipts_def)

lemma seqInv_count: "seqInv n s \<Longrightarrow> fetchLastReceipt s = n"
proof -
  assume "seqInv n s"
  then have "length (map receiptNumber (getAllReceipts s)) = length (map NewReceiptPage_receiptNumber [0..<n])"
    by (simp only: seqInv_def)
  then show ?thesis by (simp add: fetchLastReceipt_def)
qed

lemma receiptNumber_fresh: "NewReceiptPage_receiptNumber n \<notin> set (map NewReceiptPage_receiptNumber [0..<n])"
  using receiptNumber_inj by fastforce

lemma newReceipt_id: "Receipt.id (NewReceiptPage_newReceipt Number c d) = Receipt.id d"
  by (simp add: NewReceiptPage_newReceipt_def)

lemma newReceipt_number:
  "receiptNumber (NewReceiptPage_newReceipt Number c d) = NewReceiptPage_receiptNumber c"
  by (simp add: NewReceiptPage_newReceipt_def)

lemma create_seq:
  assumes inv: "seqInv n s" and d: "Receipt.id d = None"
  shows "\<exists>s'. Receipts_create Number d s = Inr (Suc n, s') \<and> seqInv (Suc n) s'"
proof -
  let ?r = "NewReceiptPage_newReceipt Number n d"
  have cnt: "fetchLastReceipt s = n" using inv by (rule seqInv_count)
  have gen: "keyGen (receipts s) = Suc n" using inv by (simp add: seqInv_def)
  have keys: "map fst (entries (receipts s)) = [1..<Suc n]" using inv by (simp add: seqInv_def)
  have nums: "map receiptNumber (getAllReceipts s) = map NewReceiptPage_receiptNumber [0..<n]"
    using inv by (simp add: seqInv_def)
  have "fst ` set (entries (receipts s)) = set [1..<Suc n]"
    using keys by (metis set_map)
  then have lt: "\<forall>x\<in>set (entries (receipts s)). fst x < keyGen (receipts s)"
    using gen by auto
  have fresh: "receiptNumber ?r \<notin> set (map receiptNumber (getAllReceipts s))"
    by (simp only: nums newReceipt_number) (simp add: receiptNumber_fresh del: set_map)
  have idr: "Receipt.id ?r = None" using d by (simp add: newReceipt_id)
  let ?s' = "s\<lparr>receipts := \<lparr>entries = entries (receipts s) @
                 [(keyGen (receipts s), ?r\<lparr>Receipt.id := Some (keyGen (receipts s))\<rparr>)],
               keyGen = Suc (keyGen (receipts s))\<rparr>\<rparr>"
  have add: "addReceipt ?r s = Inr (keyGen (receipts s), ?s')"
    using idr lt fresh by (rule addReceipt_fresh)
  have c: "Receipts_create Number d s = Inr (Suc n, ?s')"
    using add by (simp add: Receipts_create_def NewReceiptPage_onSubmit_def cnt gen)
  have "map receiptNumber (getAllReceipts ?s') = map receiptNumber (getAllReceipts s) @ [NewReceiptPage_receiptNumber n]"
    by (simp add: getAllReceipts_def db_getAll_receipts_def newReceipt_number)
  then have i: "seqInv (Suc n) ?s'"
    using keys gen nums by (simp add: seqInv_def)
  from c i show ?thesis by blast
qed

lemma createAll_seq:
  "seqInv n s \<Longrightarrow> list_all (\<lambda>d. Receipt.id d = None) ds \<Longrightarrow>
     seqInv (n + length ds) (Receipts_createAll Number ds s)"
proof (induction ds arbitrary: n s)
  case Nil
  then show ?case by simp
next
  case (Cons d ds)
  from Cons.prems have d: "Receipt.id d = None" and rest: "list_all (\<lambda>d. Receipt.id d = None) ds"
    by simp_all
  from create_seq [OF Cons.prems(1) d] obtain s' where
    c: "Receipts_create Number d s = Inr (Suc n, s')" and i: "seqInv (Suc n) s'" by blast
  have "seqInv (Suc n + length ds) (Receipts_createAll Number ds s')"
    using i rest by (rule Cons.IH)
  then show ?case by (simp add: c)
qed

lemma create_stored:
  assumes "Receipts_create Number data s = Inr (k, s')"
  shows "getReceipt k s' =
           Some ((NewReceiptPage_newReceipt Number (length (getAllReceipts s)) data)
                   \<lparr>Receipt.id := Some k\<rparr>)"
  using assms
  by (simp add: Receipts_create_def NewReceiptPage_onSubmit_def fetchLastReceipt_def getReceipt_added)

lemma distinct_map_insort_key:
  "distinct (map f (insort_key g x xs)) \<longleftrightarrow> f x \<notin> f ` set xs \<and> distinct (map f xs)"
  by (induction xs) (auto simp add: set_insort_key)

lemma receipts_saveAuth: "receipts (snd (saveAuthCredentials u h s)) = receipts s"
  by (simp add: saveAuthCredentials_def db_put_auth_def)

lemma receipts_addExpense: "addExpense x s = Inr (k, s') \<Longrightarrow> receipts s' = receipts s"
  by (auto simp add: addExpense_def db_add_expenses_def Let_def split: if_splits)

lemma receipts_saveSettings: "saveSettings x s = Inr (k, s') \<Longrightarrow> receipts s' = receipts s"
  by (auto simp add: saveSettings_Inr)


lemma receiptsInv_emptyDB: "receiptsInv emptyDB"
  by (simp add: receiptsInv_def emptyDB_def getAllReceipts_def db_getAll_receipts_def)

lemma receiptsInv_same: "receipts s' = receipts s \<Longrightarrow> receiptsInv s \<Longrightarrow> receiptsInv s'"
  by (simp add: receiptsInv_def getAllReceipts_def db_getAll_receipts_def)

lemma receiptsInv_add:
  assumes a: "addReceipt r s = Inr (k, s')" and i: "receiptsInv s"
  shows "receiptsInv s'"
proof -
  have n: "receiptNumber r \<notin> set (map receiptNumber (getAllReceipts s))"
    using a by (rule addReceipt_Inr(3))
  have s': "s' = s\<lparr>receipts := \<lparr>entries = insort_key fst (k, r\<lparr>Receipt.id := Some k\<rparr>) (entries (receipts s)),
                            keyGen = max (keyGen (receipts s)) (k + 1)\<rparr>\<rparr>"
    using a by (rule addReceipt_Inr(4))
  have keys: "list_all (\<lambda>x. fst x < max (keyGen (receipts s)) (k + 1))
                (insort_key fst (k, r\<lparr>Receipt.id := Some k\<rparr>) (entries (receipts s)))"
    using i by (auto simp add: receiptsInv_def list_all_iff set_insort_key)
  have "distinct (map (receiptNumber \<circ> snd)
           (insort_key fst (k, r\<lparr>Receipt.id := Some k\<rparr>) (entries (receipts s))))"
    using i n
    by (simp only: distinct_map_insort_key)
       (auto simp add: receiptsInv_def getAllReceipts_def db_getAll_receipts_def)
  then show ?thesis
    using keys by (simp add: s' receiptsInv_def getAllReceipts_def db_getAll_receipts_def)
qed

lemma receiptsInv_step: "receiptsInv s \<Longrightarrow> receiptsInv (step s op)"
proof (cases op)
  case (SaveAuthCredentials u h)
  assume "receiptsInv s"
  with SaveAuthCredentials show ?thesis
    by (simp add: receiptsInv_same [OF receipts_saveAuth])
next
  case (AddReceipt r)
  assume "receiptsInv s"
  with AddReceipt show ?thesis
    by (cases "addReceipt r s") (auto simp add: receiptsInv_add)
next
  case (AddExpense x)
  assume "receiptsInv s"
  with AddExpense show ?thesis
    by (cases "addExpense x s") (auto simp add: receiptsInv_same [OF receipts_addExpense])
next
  case (SaveSettings x)
  assume "receiptsInv s"
  with SaveSettings show ?thesis
    by (cases "saveSettings x s") (auto simp add: receiptsInv_same [OF receipts_saveSettings])
qed

lemma receiptsInv_run: "receiptsInv (run ops)"
  by (induction ops rule: rev_induct)
     (simp_all add: run_Nil receiptsInv_emptyDB run_snoc receiptsInv_step del: step.simps)

lemma getAllReceipts_after_add:
  assumes "addReceipt r s = Inr (k, s')"
  shows "receiptNumber r \<in> set (map receiptNumber (getAllReceipts s'))"
proof -
  have "r\<lparr>Receipt.id := Some k\<rparr> \<in># mset (getAllReceipts s')"
    by (simp add: getAllReceipts_added [OF assms])
  then have "r\<lparr>Receipt.id := Some k\<rparr> \<in> set (getAllReceipts s')" by simp
  then have "receiptNumber (r\<lparr>Receipt.id := Some k\<rparr>) \<in> receiptNumber ` set (getAllReceipts s')"
    by (rule imageI)
  then show ?thesis by simp
qed

section \<open>Facts about expenses\<close>

lemma addExpense_Inr:
  assumes "addExpense x s = Inr (k, s')"
  shows "k = (case Expense.id x of Some i \<Rightarrow> i | None \<Rightarrow> keyGen (expenses s))"
    and "k \<notin> fst ` set (entries (expenses s))"
    and "s' = s\<lparr>expenses := \<lparr>entries = insort_key fst (k, x\<lparr>Expense.id := Some k\<rparr>) (entries (expenses s)),
                            keyGen = max (keyGen (expenses s)) (k + 1)\<rparr>\<rparr>"
  using assms
  by (auto simp add: addExpense_def db_add_expenses_def Let_def split: if_splits)

lemma addExpense_fresh:
  "Expense.id x = None \<Longrightarrow> \<forall>e\<in>set (entries (expenses s)). fst e < keyGen (expenses s) \<Longrightarrow>
   addExpense x s =
     Inr (keyGen (expenses s),
          s\<lparr>expenses := \<lparr>entries = entries (expenses s) @
                                      [(keyGen (expenses s), x\<lparr>Expense.id := Some (keyGen (expenses s))\<rparr>)],
                          keyGen = Suc (keyGen (expenses s))\<rparr>\<rparr>)"
  by (auto simp add: addExpense_def db_add_expenses_def Let_def insort_key_last)

lemma getAllExpenses_added:
  assumes "addExpense x s = Inr (k, s')"
  shows "mset (getAllExpenses s') = add_mset (x\<lparr>Expense.id := Some k\<rparr>) (mset (getAllExpenses s))"
  by (simp add: addExpense_Inr(3) [OF assms] getAllExpenses_def db_getAll_expenses_def)

lemma expenses_saveAuth: "expenses (snd (saveAuthCredentials u h s)) = expenses s"
  by (simp add: saveAuthCredentials_def db_put_auth_def)

lemma expenses_addReceipt: "addReceipt r s = Inr (k, s') \<Longrightarrow> expenses s' = expenses s"
  by (auto simp add: addReceipt_def db_add_receipts_def Let_def split: if_splits)

lemma expenses_saveSettings: "saveSettings x s = Inr (k, s') \<Longrightarrow> expenses s' = expenses s"
  by (auto simp add: saveSettings_Inr)

lemma expensesInv_emptyDB: "expensesInv emptyDB"
  by (simp add: expensesInv_def emptyDB_def)

lemma expensesInv_same: "expenses s' = expenses s \<Longrightarrow> expensesInv s \<Longrightarrow> expensesInv s'"
  by (simp add: expensesInv_def)

lemma expensesInv_add:
  assumes a: "addExpense x s = Inr (k, s')" and i: "expensesInv s"
  shows "expensesInv s'"
  using i by (auto simp add: addExpense_Inr(3) [OF a] expensesInv_def list_all_iff set_insort_key)

lemma expensesInv_step: "expensesInv s \<Longrightarrow> expensesInv (step s op)"
proof (cases op)
  case (SaveAuthCredentials u h)
  assume "expensesInv s"
  with SaveAuthCredentials show ?thesis
    by (simp add: expensesInv_same [OF expenses_saveAuth])
next
  case (AddReceipt r)
  assume "expensesInv s"
  with AddReceipt show ?thesis
    by (cases "addReceipt r s") (auto simp add: expensesInv_same [OF expenses_addReceipt])
next
  case (AddExpense x)
  assume "expensesInv s"
  with AddExpense show ?thesis
    by (cases "addExpense x s") (auto simp add: expensesInv_add)
next
  case (SaveSettings x)
  assume "expensesInv s"
  with SaveSettings show ?thesis
    by (cases "saveSettings x s") (auto simp add: expensesInv_same [OF expenses_saveSettings])
qed

lemma expensesInv_run: "expensesInv (run ops)"
  by (induction ops rule: rev_induct)
     (simp_all add: run_Nil expensesInv_emptyDB run_snoc expensesInv_step del: step.simps)

section \<open>Facts about JavaScript numbers and the expense totals\<close>

lemma log2floor_bounds: "0 < n \<Longrightarrow> 2 ^ log2floor n \<le> n \<and> n < 2 ^ Suc (log2floor n)"
proof (induction n rule: log2floor.induct)
  case (1 n)
  show ?case
  proof (cases "n < 2")
    case True
    with "1.prems" have "n = 1" by simp
    then show ?thesis by (simp add: log2floor.simps [of "Suc 0"])
  next
    case False
    then have pos: "0 < n div 2" by simp
    have ih: "2 ^ log2floor (n div 2) \<le> n div 2 \<and> n div 2 < 2 ^ Suc (log2floor (n div 2))"
      using "1.IH" [OF False pos] .
    have eq: "log2floor n = Suc (log2floor (n div 2))"
      using False by (simp add: log2floor.simps [of n])
    have lo: "2 * 2 ^ log2floor (n div 2) \<le> n" using ih by linarith
    have hi: "n < 2 * 2 ^ Suc (log2floor (n div 2))" using ih by linarith
    show ?thesis using lo hi by (simp add: eq)
  qed
qed

lemma log2floor_le: "0 < n \<Longrightarrow> n \<le> 2 ^ k \<Longrightarrow> log2floor n \<le> k"
proof -
  assume n: "0 < n" and le: "n \<le> 2 ^ k"
  have "(2::nat) ^ log2floor n \<le> 2 ^ k"
    using log2floor_bounds [OF n] le by linarith
  then show ?thesis by simp
qed

lemma log2floor_eq: "2 ^ k \<le> n \<Longrightarrow> n < 2 ^ Suc k \<Longrightarrow> log2floor n = k"
proof -
  assume lo: "2 ^ k \<le> n" and hi: "n < 2 ^ Suc k"
  have pos: "0 < n" using lo by (metis less_le_trans zero_less_numeral zero_less_power)
  note b = log2floor_bounds [OF pos]
  have "(2::nat) ^ log2floor n < 2 ^ Suc k" using b hi by linarith
  then have 1: "log2floor n < Suc k" by (rule power_less_imp_less_exp [rotated]) simp
  have "(2::nat) ^ k < 2 ^ Suc (log2floor n)" using b lo by linarith
  then have 2: "k < Suc (log2floor n)" by (rule power_less_imp_less_exp [rotated]) simp
  from 1 2 show ?thesis by simp
qed

lemma roundHalfEven_of_int: "roundHalfEven (of_int N) = N"
  by (simp add: roundHalfEven_def)

text \<open>A number that is a whole multiple of its last place, below the overflow threshold, is a double.\<close>

lemma roundToDouble_exact:
  assumes nz: "x \<noteq> 0"
    and int: "\<bar>x\<bar> / lastPlace x = of_int N"
    and small: "\<bar>x\<bar> < 2 ^ 1024"
  shows "roundToDouble x = Fin x"
proof -
  have q: "lastPlace x \<noteq> 0" by (simp add: lastPlace_def)
  have "of_int N * lastPlace x = \<bar>x\<bar>"
    using int q by (simp add: field_simps)
  then have y: "of_int (roundHalfEven (\<bar>x\<bar> / lastPlace x)) * lastPlace x = \<bar>x\<bar>"
    by (simp only: int roundHalfEven_of_int)
  have a: "\<not> 2 ^ 1024 \<le> \<bar>x\<bar>" using small by simp
  have b: "\<bar>x\<bar> \<noteq> 0" using nz by simp
  have c: "(if 0 < x then \<bar>x\<bar> else - \<bar>x\<bar>) = x" by simp
  show ?thesis
    by (simp only: roundToDouble_def Let_def y a b c nz if_False)
qed

text \<open>Every whole number up to \<open>2 ^ 53\<close> in magnitude is a double.\<close>

lemma roundToDouble_int:
  assumes nz: "k \<noteq> 0" and le: "\<bar>k\<bar> \<le> 2 ^ 53"
  shows "roundToDouble (of_int k) = Fin (of_int k)"
proof -
  let ?x = "of_int k :: rat"
  let ?n = "nat \<bar>k\<bar>"
  let ?L = "log2floor ?n"
  have npos: "0 < ?n" using nz by simp
  have nle: "?n \<le> 2 ^ 53" using le by (simp add: nat_le_iff)
  have L53: "?L \<le> 53" using npos nle by (rule log2floor_le)
  have ax: "\<bar>?x\<bar> = of_int \<bar>k\<bar>" by simp
  have "1 \<le> \<bar>k\<bar>" using nz by simp
  then have "(1::rat) \<le> of_int \<bar>k\<bar>" by (metis of_int_1 of_int_le_iff)
  then have one: "1 \<le> \<bar>?x\<bar>" by (simp only: ax)
  have il: "ilog2 \<bar>?x\<bar> = int ?L"
    using one by (simp only: ilog2_def ax floor_of_int) simp
  have e: "lastPlace ?x = 2 powi (int ?L - 52)"
    by (simp add: lastPlace_def il)
  have "\<exists>N. \<bar>?x\<bar> / (2 powi (int ?L - 52)) = of_int N"
  proof (cases "?L \<le> 52")
    case True
    then have "int ?L - 52 = - int (52 - ?L)" by simp
    then have "(2::rat) powi (int ?L - 52) = 2 powi (- int (52 - ?L))" by (rule arg_cong)
    also have "\<dots> = inverse (2 powi int (52 - ?L))" by (rule power_int_minus)
    also have "\<dots> = inverse (2 ^ (52 - ?L))" by (simp only: power_int_of_nat)
    finally have p: "(2::rat) powi (int ?L - 52) = inverse (2 ^ (52 - ?L))" .
    have "\<bar>?x\<bar> / (2 powi (int ?L - 52)) = of_int \<bar>k\<bar> * 2 ^ (52 - ?L)"
      by (simp only: p ax divide_inverse inverse_inverse_eq)
    also have "\<dots> = of_int (\<bar>k\<bar> * 2 ^ (52 - ?L))" by simp
    finally have "\<bar>?x\<bar> / (2 powi (int ?L - 52)) = of_int (\<bar>k\<bar> * 2 ^ (52 - ?L))" .
    then show ?thesis by blast
  next
    case False
    with L53 have L: "?L = 53" by simp
    have "2 ^ 53 \<le> ?n" using log2floor_bounds [OF npos] by (simp add: L)
    with nle have "?n = 2 ^ 53" by simp
    then have k: "\<bar>k\<bar> = 2 ^ 53" by (simp add: nat_eq_iff)
    have p: "(2::rat) powi (int ?L - 52) = 2" by (simp add: L)
    have "\<bar>?x\<bar> = 2 ^ 53" by (simp only: ax k) simp
    then have "\<bar>?x\<bar> / (2 powi (int ?L - 52)) = of_int (2 ^ 52)"
      by (simp only: p) simp
    then show ?thesis by blast
  qed
  then obtain N where N: "\<bar>?x\<bar> / lastPlace ?x = of_int N"
    by (simp only: e) blast
  have "\<bar>k\<bar> < 2 ^ 1024" using le by (rule le_less_trans) simp
  then have small: "\<bar>?x\<bar> < 2 ^ 1024"
    by (simp only: ax) (metis of_int_less_iff of_int_numeral of_int_power)
  have nzx: "?x \<noteq> 0" using nz by simp
  show ?thesis using nzx N small by (rule roundToDouble_exact)
qed

lemma roundToDouble_int0: "\<bar>k\<bar> \<le> 2 ^ 53 \<Longrightarrow> roundToDouble (of_int k) = Fin (of_int k)"
  by (cases "k = 0") (simp_all add: roundToDouble_int, simp add: roundToDouble_def)

lemma Number_add_int:
  "\<bar>a + b\<bar> \<le> 2 ^ 53 \<Longrightarrow>
     Number_add (Fin (of_int a)) (Fin (of_int b)) = Fin (of_int (a + b))"
  using roundToDouble_int0 [of "a + b"] by simp

lemma Number_subtract_int:
  assumes "\<bar>a - b\<bar> \<le> 2 ^ 53" and "\<bar>a\<bar> \<le> 2 ^ 53"
  shows "Number_subtract (Fin (of_int a)) (Fin (of_int b)) = Fin (of_int (a - b))"
proof (cases "b = 0")
  case True
  then show ?thesis
    using roundToDouble_int0 [OF assms(2)] by (simp add: Number_subtract_def)
next
  case False
  then have "Number_subtract (Fin (of_int a)) (Fin (of_int b))
               = Number_add (Fin (of_int a)) (Fin (of_int (- b)))"
    by (simp add: Number_subtract_def)
  also have "\<dots> = Fin (of_int (a + - b))"
    using assms(1) by (intro Number_add_int) simp
  finally show ?thesis by simp
qed

lemma foldl_Number_add_int:
  "(\<Sum>n\<leftarrow>ns. \<bar>n\<bar>) + \<bar>a\<bar> \<le> 2 ^ 53 \<Longrightarrow>
     foldl Number_add (Fin (of_int a)) (map (\<lambda>n. Fin (of_int n)) ns) = Fin (of_int (a + sum_list ns))"
proof (induction ns arbitrary: a)
  case Nil
  then show ?case by simp
next
  case (Cons n ns)
  have nn: "0 \<le> (\<Sum>n\<leftarrow>ns. \<bar>n\<bar>)" by (rule sum_list_nonneg) auto
  have b1: "\<bar>a + n\<bar> \<le> 2 ^ 53" using Cons.prems nn by simp
  have b2: "(\<Sum>n\<leftarrow>ns. \<bar>n\<bar>) + \<bar>a + n\<bar> \<le> 2 ^ 53" using Cons.prems by simp
  have "foldl Number_add (Fin (of_int a)) (map (\<lambda>n. Fin (of_int n)) (n # ns))
        = foldl Number_add (Fin (of_int (a + n))) (map (\<lambda>n. Fin (of_int n)) ns)"
    by (simp only: list.map foldl_Cons Number_add_int [OF b1])
  also have "\<dots> = Fin (of_int (a + n + sum_list ns))" using b2 by (rule Cons.IH)
  finally show ?case by (simp add: add.assoc)
qed

lemma foldl_whole:
  "(\<Sum>n\<leftarrow>ns. \<bar>n\<bar>) \<le> 2 ^ 53 \<Longrightarrow>
     foldl Number_add (Fin 0) (map (\<lambda>n. Fin (of_int n)) ns) = Fin (of_int (sum_list ns))"
  using foldl_Number_add_int [of ns 0] by simp

lemma sum_abs_filter: "(\<Sum>n\<leftarrow>filter P ns. \<bar>n\<bar>) \<le> (\<Sum>n\<leftarrow>ns. \<bar>n::int\<bar>)"
  by (induction ns) auto

lemma sum_split_sign:
  "sum_list ns = sum_list (filter (\<lambda>n. 0 < n) ns) - (\<Sum>n\<leftarrow>filter (\<lambda>n. n < 0) ns. \<bar>n::int\<bar>)"
  by (induction ns) auto

lemma sum_sign_bound:
  "sum_list (filter (\<lambda>n. 0 < n) ns) + (\<Sum>n\<leftarrow>filter (\<lambda>n. n < 0) ns. \<bar>n::int\<bar>) \<le> (\<Sum>n\<leftarrow>ns. \<bar>n\<bar>)"
  by (induction ns) auto

lemma sum_pos_nonneg: "0 \<le> sum_list (filter (\<lambda>n. 0 < n) (ns::int list))"
  by (induction ns) auto

lemma sum_neg_nonneg: "0 \<le> (\<Sum>n\<leftarrow>filter (\<lambda>n. n < 0) ns. \<bar>n::int\<bar>)"
  by (induction ns) auto

lemma totalExpenses_whole:
  assumes m: "map Expense.amount xs = map (\<lambda>n. Fin (of_int n)) ns"
    and b: "(\<Sum>n\<leftarrow>ns. \<bar>n\<bar>) \<le> 2 ^ 53"
  shows "totalExpenses xs = Fin (of_int (sum_list ns))"
proof -
  have "totalExpenses xs = foldl Number_add (Fin 0) (map Expense.amount xs)"
    by (simp add: totalExpenses_def foldl_map)
  then show ?thesis using foldl_whole [OF b] by (simp only: m)
qed

lemma totalIncome_whole:
  assumes m: "map Expense.amount xs = map (\<lambda>n. Fin (of_int n)) ns"
    and b: "(\<Sum>n\<leftarrow>ns. \<bar>n\<bar>) \<le> 2 ^ 53"
  shows "totalIncome xs = Fin (of_int (sum_list (filter (\<lambda>n. 0 < n) ns)))"
proof -
  let ?P = "\<lambda>d. Number_lessThan (Fin 0) d"
  have "map Expense.amount (filter (\<lambda>e. ?P (Expense.amount e)) xs) = filter ?P (map Expense.amount xs)"
    by (simp add: filter_map comp_def)
  also have "\<dots> = filter ?P (map (\<lambda>n. Fin (of_int n)) ns)" by (simp only: m)
  also have "\<dots> = map (\<lambda>n. Fin (of_int n)) (filter (\<lambda>n. 0 < n) ns)"
    by (simp add: filter_map comp_def)
  finally have f: "map Expense.amount (filter (\<lambda>e. ?P (Expense.amount e)) xs)
                     = map (\<lambda>n. Fin (of_int n)) (filter (\<lambda>n. 0 < n) ns)" .
  have b': "(\<Sum>n\<leftarrow>filter (\<lambda>n. 0 < n) ns. \<bar>n\<bar>) \<le> 2 ^ 53"
    using sum_abs_filter [of "\<lambda>n. 0 < n" ns] b by linarith
  have "totalIncome xs
          = foldl Number_add (Fin 0) (map Expense.amount (filter (\<lambda>e. ?P (Expense.amount e)) xs))"
    by (simp add: totalIncome_def foldl_map)
  then show ?thesis using foldl_whole [OF b'] by (simp only: f)
qed

lemma totalExpense_whole:
  assumes m: "map Expense.amount xs = map (\<lambda>n. Fin (of_int n)) ns"
    and b: "(\<Sum>n\<leftarrow>ns. \<bar>n\<bar>) \<le> 2 ^ 53"
  shows "totalExpense xs = Fin (of_int (\<Sum>n\<leftarrow>filter (\<lambda>n. n < 0) ns. \<bar>n\<bar>))"
proof -
  let ?P = "\<lambda>d. Number_lessThan d (Fin 0)"
  have "map Expense.amount (filter (\<lambda>e. ?P (Expense.amount e)) xs) = filter ?P (map Expense.amount xs)"
    by (simp add: filter_map comp_def)
  also have "\<dots> = filter ?P (map (\<lambda>n. Fin (of_int n)) ns)" by (simp only: m)
  also have "\<dots> = map (\<lambda>n. Fin (of_int n)) (filter (\<lambda>n. n < 0) ns)"
    by (simp add: filter_map comp_def)
  finally have f: "map Expense.amount (filter (\<lambda>e. ?P (Expense.amount e)) xs)
                     = map (\<lambda>n. Fin (of_int n)) (filter (\<lambda>n. n < 0) ns)" .
  have "map (\<lambda>e. Math_abs (Expense.amount e)) (filter (\<lambda>e. ?P (Expense.amount e)) xs)
          = map Math_abs (map Expense.amount (filter (\<lambda>e. ?P (Expense.amount e)) xs))"
    by simp
  also have "\<dots> = map Math_abs (map (\<lambda>n. Fin (of_int n)) (filter (\<lambda>n. n < 0) ns))"
    by (simp only: f)
  also have "\<dots> = map (\<lambda>n. Fin (of_int n)) (map abs (filter (\<lambda>n. n < 0) ns))"
    by simp
  finally have g: "map (\<lambda>e. Math_abs (Expense.amount e)) (filter (\<lambda>e. ?P (Expense.amount e)) xs)
                     = map (\<lambda>n. Fin (of_int n)) (map abs (filter (\<lambda>n. n < 0) ns))" .
  have "(\<Sum>n\<leftarrow>map abs (filter (\<lambda>n. n < 0) ns). \<bar>n\<bar>) = (\<Sum>n\<leftarrow>filter (\<lambda>n. n < 0) ns. \<bar>n\<bar>)"
    by (simp add: comp_def)
  then have b': "(\<Sum>n\<leftarrow>map abs (filter (\<lambda>n. n < 0) ns). \<bar>n\<bar>) \<le> 2 ^ 53"
    using sum_abs_filter [of "\<lambda>n. n < 0" ns] b by linarith
  have "totalExpense xs
          = foldl Number_add (Fin 0)
              (map (\<lambda>e. Math_abs (Expense.amount e)) (filter (\<lambda>e. ?P (Expense.amount e)) xs))"
    by (simp add: totalExpense_def foldl_map)
  then show ?thesis using foldl_whole [OF b'] by (simp only: g)
qed

lemma netBalance_whole:
  assumes m: "map Expense.amount xs = map (\<lambda>n. Fin (of_int n)) ns"
    and b: "(\<Sum>n\<leftarrow>ns. \<bar>n\<bar>) \<le> 2 ^ 53"
  shows "netBalance xs = Fin (of_int (sum_list ns))"
proof -
  let ?p = "sum_list (filter (\<lambda>n. 0 < n) ns)"
  let ?q = "\<Sum>n\<leftarrow>filter (\<lambda>n. n < 0) ns. \<bar>n\<bar>"
  have s: "sum_list ns = ?p - ?q" by (rule sum_split_sign)
  have bound: "?p + ?q \<le> 2 ^ 53" using sum_sign_bound [of ns] b by linarith
  have p0: "0 \<le> ?p" by (rule sum_pos_nonneg)
  have q0: "0 \<le> ?q" by (rule sum_neg_nonneg)
  have 1: "\<bar>?p - ?q\<bar> \<le> 2 ^ 53" using bound p0 q0 by linarith
  have 2: "\<bar>?p\<bar> \<le> 2 ^ 53" using bound p0 q0 by linarith
  have "netBalance xs = Number_subtract (Fin (of_int ?p)) (Fin (of_int ?q))"
    by (simp only: netBalance_def totalIncome_whole [OF m b] totalExpense_whole [OF m b])
  also have "\<dots> = Fin (of_int (?p - ?q))" using 1 2 by (rule Number_subtract_int)
  finally show ?thesis by (simp only: s)
qed

lemma sum_list_mset_cong:
  "mset xs = mset ys \<Longrightarrow> sum_list (map f xs) = (sum_list (map f ys) :: rat)"
proof -
  assume "mset xs = mset ys"
  then have "mset (map f xs) = mset (map f ys)" by simp
  then have "sum_mset (mset (map f xs)) = sum_mset (mset (map f ys))"
    by (rule arg_cong)
  then show ?thesis by (simp only: sum_mset_sum_list)
qed

lemma stored_sum_whole:
  assumes p: "mset shown = mset stored"
    and m: "map Expense.amount shown = map (\<lambda>n. Fin (of_int n)) ns"
  shows "(\<Sum>e\<leftarrow>stored. valueOf (Expense.amount e)) = of_int (sum_list ns)"
proof -
  have "(\<Sum>e\<leftarrow>stored. valueOf (Expense.amount e)) = (\<Sum>e\<leftarrow>shown. valueOf (Expense.amount e))"
    using p [symmetric] by (rule sum_list_mset_cong)
  also have "\<dots> = sum_list (map valueOf (map Expense.amount shown))" by (simp add: comp_def)
  also have "\<dots> = sum_list (map valueOf (map (\<lambda>n. Fin (of_int n)) ns))" by (simp only: m)
  also have "\<dots> = of_int (sum_list ns)" by (induction ns) simp_all
  finally show ?thesis .
qed

lemma Math_abs_unaryMinus: "Math_abs (Number_unaryMinus x) = Math_abs x"
  by (cases x) simp_all

lemma lessThan_unaryMinus:
  "Number_lessThan (Fin 0) x \<Longrightarrow> Number_lessThan (Number_unaryMinus x) (Fin 0)"
  by (cases x) (simp_all split: if_splits)

lemma roundToDouble_tie: "roundToDouble 9007199254740993 = Fin 9007199254740992"
proof -
  have l: "log2floor 9007199254740993 = 53" by (rule log2floor_eq) simp_all
  have lp: "lastPlace 9007199254740993 = 2" by (simp add: lastPlace_def ilog2_def l)
  have f: "\<lfloor>9007199254740993 / 2 :: rat\<rfloor> = 4503599627370496"
    by (rule floor_unique) simp_all
  have r: "roundHalfEven (9007199254740993 / 2) = 4503599627370496"
    by (simp add: roundHalfEven_def Let_def f)
  show ?thesis by (simp add: roundToDouble_def lp r)
qed

lemma roundToDouble_2_53: "roundToDouble 9007199254740992 = Fin 9007199254740992"
  using roundToDouble_int0 [of 9007199254740992] by simp

lemma roundToDouble_0: "roundToDouble 0 = Fin 0"
  by (simp add: roundToDouble_def)

lemma roundToDouble_1: "roundToDouble 1 = Fin 1"
  using roundToDouble_int0 [of 1] by simp

section \<open>Credential manager\<close>

text \<open>
  C3. \<^verbatim>\<open>login\<close> answers true exactly when the user is \<^verbatim>\<open>admin\<close>, a credential is
  stored for it, and the digest of the password is the stored digest; in every other case
  (another user, no stored credential, another password) it answers false.
\<close>

theorem login_verifies_credentials:
  "fst (login digest user pass a s) \<longleftrightarrow>
     user = ''admin'' \<and>
     (\<exists>c. getAuthCredentials ''admin'' s = Some c \<and> sha256 digest pass = passwordHash c)"
  by (simp add: login_def Let_def split: option.splits)

text \<open>
  C4, as the claim states it, fails where no credential is stored: the form then reports
  nothing at all (its message stays \<^verbatim>\<open>null\<close>), whatever the digest function is.
\<close>

theorem changePassword_no_credential_counterexample:
  "\<forall>digest. ChangePasswordForm_onSubmit digest ''google'' ''secret1'' emptyDB = (None, emptyDB)"
  by (simp add: ChangePasswordForm_onSubmit_def getAuth_other)

text \<open>
  C4, amended. The change succeeds exactly when a credential is stored and the digest of
  the current password is the stored digest; on success the stored digest becomes the
  digest of the new password. Where a credential is stored and the digest differs, the
  form reports that the current password is not correct and the database is as before.
  Where no credential is stored, the form reports nothing and the database is as before.
  No case raises.
\<close>

theorem changePassword_contract:
  "(fst (ChangePasswordForm_onSubmit digest cur new s) = Some (Message success ''Password updated successfully!'')
      \<longleftrightarrow> (\<exists>c. getAuthCredentials ''admin'' s = Some c \<and> sha256 digest cur = passwordHash c)) \<and>
   (fst (ChangePasswordForm_onSubmit digest cur new s) = Some (Message success ''Password updated successfully!'')
      \<longrightarrow> snd (ChangePasswordForm_onSubmit digest cur new s) = snd (saveAuthCredentials ''admin'' (sha256 digest new) s) \<and>
          getAuthCredentials ''admin'' (snd (ChangePasswordForm_onSubmit digest cur new s))
            = Some \<lparr>username = ''admin'', passwordHash = sha256 digest new\<rparr>) \<and>
   (\<forall>c. getAuthCredentials ''admin'' s = Some c \<and> sha256 digest cur \<noteq> passwordHash c
      \<longrightarrow> ChangePasswordForm_onSubmit digest cur new s = (Some (Message error ''Current password is not correct.''), s)) \<and>
   (getAuthCredentials ''admin'' s = None
      \<longrightarrow> ChangePasswordForm_onSubmit digest cur new s = (None, s))"
  by (auto simp add: ChangePasswordForm_onSubmit_def Let_def getAuth_save split: option.splits)

theorem changePassword_contract_witness:
  "fst (ChangePasswordForm_onSubmit rev ''google'' ''secret1''
          (snd (checkAuth rev (\<lparr>isAuthenticated = False, sessionStorage = Map.empty\<rparr>, emptyDB))))
     = Some (Message success ''Password updated successfully!'') \<and>
   getAuthCredentials ''admin''
     (snd (ChangePasswordForm_onSubmit rev ''google'' ''secret1''
          (snd (checkAuth rev (\<lparr>isAuthenticated = False, sessionStorage = Map.empty\<rparr>, emptyDB)))))
     = Some \<lparr>username = ''admin'', passwordHash = ''31746572636573''\<rparr> \<and>
   ChangePasswordForm_onSubmit rev ''wrong'' ''secret1''
          (snd (checkAuth rev (\<lparr>isAuthenticated = False, sessionStorage = Map.empty\<rparr>, emptyDB)))
     = (Some (Message error ''Current password is not correct.''),
        snd (checkAuth rev (\<lparr>isAuthenticated = False, sessionStorage = Map.empty\<rparr>, emptyDB))) \<and>
   ChangePasswordForm_onSubmit rev ''google'' ''secret1'' emptyDB = (None, emptyDB)"
proof -
  let ?s0 = "snd (checkAuth rev (\<lparr>isAuthenticated = False, sessionStorage = Map.empty\<rparr>, emptyDB))"
  have c: "getAuthCredentials ''admin'' ?s0 = Some \<lparr>username = ''admin'', passwordHash = ''656c676f6f67''\<rparr>"
    by (simp add: checkAuth_seeds getAuth_other getAuth_save sha256_rev_google)
  have ex: "\<exists>c. getAuthCredentials ''admin'' ?s0 = Some c \<and> sha256 rev ''google'' = passwordHash c"
    by (simp add: c sha256_rev_google)
  note t1 = changePassword_contract [of rev "''google''" "''secret1''" ?s0]
  have ok: "fst (ChangePasswordForm_onSubmit rev ''google'' ''secret1'' ?s0)
              = Some (Message success ''Password updated successfully!'')"
    using t1 [THEN conjunct1] ex by (rule iffD2)
  have stored: "getAuthCredentials ''admin''
                  (snd (ChangePasswordForm_onSubmit rev ''google'' ''secret1'' ?s0))
                = Some \<lparr>username = ''admin'', passwordHash = sha256 rev ''secret1''\<rparr>"
    using t1 [THEN conjunct2, THEN conjunct1] ok by blast
  have mism: "getAuthCredentials ''admin'' ?s0
                = Some \<lparr>username = ''admin'', passwordHash = ''656c676f6f67''\<rparr> \<and>
              sha256 rev ''wrong'' \<noteq> passwordHash \<lparr>username = ''admin'', passwordHash = ''656c676f6f67''\<rparr>"
    by (simp add: c sha256_rev_wrong)
  have wrong: "ChangePasswordForm_onSubmit rev ''wrong'' ''secret1'' ?s0
                 = (Some (Message error ''Current password is not correct.''), ?s0)"
    using changePassword_contract [of rev "''wrong''" "''secret1''" ?s0, THEN conjunct2, THEN conjunct2, THEN conjunct1] mism
    by blast
  have none: "ChangePasswordForm_onSubmit rev ''google'' ''secret1'' emptyDB = (None, emptyDB)"
    using changePassword_contract [of rev "''google''" "''secret1''" emptyDB, THEN conjunct2, THEN conjunct2, THEN conjunct2]
      getAuth_other [of "''admin''"] by (rule mp)
  show ?thesis
    using ok stored wrong none by (simp only: sha256_rev_secret1 simp_thms)
qed

text \<open>
  C5, as the claim states it, fails where the new password is the old one: the change
  succeeds and the old password still verifies, whatever the digest function is.
\<close>

theorem changePassword_same_password_counterexample:
  "\<forall>digest.
     fst (ChangePasswordForm_onSubmit digest ''google'' ''google''
            (snd (checkAuth digest (\<lparr>isAuthenticated = False, sessionStorage = Map.empty\<rparr>, emptyDB))))
       = Some (Message success ''Password updated successfully!'') \<and>
     fst (login digest ''admin'' ''google'' \<lparr>isAuthenticated = False, sessionStorage = Map.empty\<rparr>
            (snd (ChangePasswordForm_onSubmit digest ''google'' ''google''
               (snd (checkAuth digest (\<lparr>isAuthenticated = False, sessionStorage = Map.empty\<rparr>, emptyDB))))))"
  by (simp add: ChangePasswordForm_onSubmit_def login_def checkAuth_seeds getAuth_other getAuth_save Let_def)

text \<open>
  C5, amended. For passwords \<open>old\<close> and \<open>new\<close> that differ (and whose digests then
  differ), after a successful change the admin no longer verifies with \<open>old\<close> and
  verifies with \<open>new\<close>.
\<close>

theorem changePassword_then_verify:
  assumes "fst (ChangePasswordForm_onSubmit digest old new s)
             = Some (Message success ''Password updated successfully!'')"
    and "old \<noteq> new"
    and "old \<noteq> new \<longrightarrow> sha256 digest old \<noteq> sha256 digest new"
  shows "\<not> fst (login digest ''admin'' old a (snd (ChangePasswordForm_onSubmit digest old new s))) \<and>
         fst (login digest ''admin'' new a (snd (ChangePasswordForm_onSubmit digest old new s)))"
  using assms
  by (auto simp add: ChangePasswordForm_onSubmit_def login_def Let_def getAuth_save
        split: option.splits if_splits)

theorem changePassword_then_verify_witness:
  "fst (ChangePasswordForm_onSubmit rev ''google'' ''secret1''
          (snd (checkAuth rev (\<lparr>isAuthenticated = False, sessionStorage = Map.empty\<rparr>, emptyDB))))
     = Some (Message success ''Password updated successfully!'') \<and>
   ''google'' \<noteq> ''secret1'' \<and> sha256 rev ''google'' \<noteq> sha256 rev ''secret1'' \<and>
   \<not> fst (login rev ''admin'' ''google'' \<lparr>isAuthenticated = False, sessionStorage = Map.empty\<rparr>
          (snd (ChangePasswordForm_onSubmit rev ''google'' ''secret1''
             (snd (checkAuth rev (\<lparr>isAuthenticated = False, sessionStorage = Map.empty\<rparr>, emptyDB)))))) \<and>
   fst (login rev ''admin'' ''secret1'' \<lparr>isAuthenticated = False, sessionStorage = Map.empty\<rparr>
          (snd (ChangePasswordForm_onSubmit rev ''google'' ''secret1''
             (snd (checkAuth rev (\<lparr>isAuthenticated = False, sessionStorage = Map.empty\<rparr>, emptyDB))))))"
proof -
  let ?a0 = "\<lparr>isAuthenticated = False, sessionStorage = Map.empty\<rparr>"
  let ?s0 = "snd (checkAuth rev (?a0, emptyDB))"
  have h1: "fst (ChangePasswordForm_onSubmit rev ''google'' ''secret1'' ?s0)
              = Some (Message success ''Password updated successfully!'')"
    by (simp add: ChangePasswordForm_onSubmit_def checkAuth_seeds getAuth_other getAuth_save Let_def)
  have h2: "''google'' \<noteq> ''secret1''" by simp
  have h3: "sha256 rev ''google'' \<noteq> sha256 rev ''secret1''"
    by (simp add: sha256_rev_google sha256_rev_secret1)
  then have h3': "''google'' \<noteq> ''secret1'' \<longrightarrow> sha256 rev ''google'' \<noteq> sha256 rev ''secret1''" by simp
  show ?thesis
    using h1 h2 h3 changePassword_then_verify [OF h1 h2 h3', of ?a0] by simp
qed

text \<open>
  C9. The startup check seeds the digest of the default password where the admin has no
  credential, changes nothing in the database where it has one, and run any number of
  times after the first it leaves everything as the first run left it.
\<close>

theorem checkAuth_seeding_idempotent:
  "(getAuthCredentials ''admin'' s = None \<longrightarrow>
      getAuthCredentials ''admin'' (snd (checkAuth digest (a, s)))
        = Some \<lparr>username = ''admin'', passwordHash = sha256 digest ''google''\<rparr>) \<and>
   (getAuthCredentials ''admin'' s \<noteq> None \<longrightarrow> snd (checkAuth digest (a, s)) = s) \<and>
   (checkAuth digest ^^ Suc n) (a, s) = checkAuth digest (a, s)"
  by (auto simp add: checkAuth_seeds checkAuth_keeps getAuth_save checkAuth_pow simp del: funpow.simps)

theorem checkAuth_seeding_idempotent_witness:
  "getAuthCredentials ''admin'' emptyDB = None \<and>
   getAuthCredentials ''admin''
      (snd (checkAuth rev (\<lparr>isAuthenticated = False, sessionStorage = Map.empty\<rparr>, emptyDB)))
        = Some \<lparr>username = ''admin'', passwordHash = ''656c676f6f67''\<rparr> \<and>
   getAuthCredentials ''admin''
      (snd ((checkAuth rev ^^ 3) (\<lparr>isAuthenticated = False, sessionStorage = Map.empty\<rparr>, emptyDB)))
        = Some \<lparr>username = ''admin'', passwordHash = ''656c676f6f67''\<rparr>"
proof -
  let ?a0 = "\<lparr>isAuthenticated = False, sessionStorage = Map.empty\<rparr>"
  note t = checkAuth_seeding_idempotent [of emptyDB rev ?a0 2]
  have n: "getAuthCredentials ''admin'' emptyDB = None" by (rule getAuth_other)
  have first: "getAuthCredentials ''admin'' (snd (checkAuth rev (?a0, emptyDB)))
                 = Some \<lparr>username = ''admin'', passwordHash = sha256 rev ''google''\<rparr>"
    using t [THEN conjunct1] n by (rule mp)
  have "(checkAuth rev ^^ 3) (?a0, emptyDB) = (checkAuth rev ^^ Suc 2) (?a0, emptyDB)"
    by (simp only: eval_nat_numeral)
  also have "\<dots> = checkAuth rev (?a0, emptyDB)"
    using t [THEN conjunct2, THEN conjunct2] .
  finally have again: "(checkAuth rev ^^ 3) (?a0, emptyDB) = checkAuth rev (?a0, emptyDB)" .
  show ?thesis
    using n first by (simp only: again sha256_rev_google simp_thms)
qed

section \<open>Settings\<close>

text \<open>
  C7. \<^verbatim>\<open>loadSettings\<close> on a database that holds a settings record returns that record
  and leaves the database alone; on a database that holds none it saves the hard-coded
  default under key 1 and returns it with \<open>id = 1\<close>, and a settings record exists
  afterwards. The default is admin name \<^verbatim>\<open>Admin\<close>, block \<^verbatim>\<open>Society Office\<close>, signature
  type \<^verbatim>\<open>typed\<close> with the text \<^verbatim>\<open>For Neelkanth Society\<close>, and empty drawn and uploaded
  payloads.
\<close>

theorem loadSettings_lazy_default:
  "(getSettings s = Some r \<longrightarrow> loadSettings s = Inr (r, s)) \<and>
   (getSettings s = None \<longrightarrow>
      (\<exists>s'. loadSettings s = Inr (defaultSettings\<lparr>Settings.id := Some 1\<rparr>, s') \<and>
            getSettings s' = Some (defaultSettings\<lparr>Settings.id := Some 1\<rparr>) \<and>
            dom (settings s') = insert 1 (dom (settings s)))) \<and>
   defaultSettings\<lparr>Settings.id := Some 1\<rparr> =
     \<lparr>Settings.id = Some 1, adminName = ''Admin'', blockNumber = ''Society Office'',
      signatureType = typed, typedSignature = ''For Neelkanth Society'',
      drawnSignature = '''', uploadedSignature = ''''\<rparr>"
  by (auto simp add: loadSettings_Some loadSettings_None getSettings_put defaultSettings_def)

theorem loadSettings_lazy_default_witness:
  "getSettings emptyDB = None \<and>
   loadSettings emptyDB =
     Inr (defaultSettings\<lparr>Settings.id := Some 1\<rparr>,
          emptyDB\<lparr>settings := (settings emptyDB)(1 \<mapsto> defaultSettings\<lparr>Settings.id := Some 1\<rparr>)\<rparr>) \<and>
   getSettings (emptyDB\<lparr>settings := (settings emptyDB)(1 \<mapsto> defaultSettings\<lparr>Settings.id := Some 1\<rparr>)\<rparr>)
     = Some (defaultSettings\<lparr>Settings.id := Some 1\<rparr>) \<and>
   loadSettings (emptyDB\<lparr>settings := (settings emptyDB)(1 \<mapsto> defaultSettings\<lparr>Settings.id := Some 1\<rparr>)\<rparr>)
     = Inr (defaultSettings\<lparr>Settings.id := Some 1\<rparr>,
            emptyDB\<lparr>settings := (settings emptyDB)(1 \<mapsto> defaultSettings\<lparr>Settings.id := Some 1\<rparr>)\<rparr>)"
proof -
  let ?d = "defaultSettings\<lparr>Settings.id := Some 1\<rparr>"
  let ?s1 = "emptyDB\<lparr>settings := (settings emptyDB)(1 \<mapsto> ?d)\<rparr>"
  have n: "getSettings emptyDB = None" by (rule getSettings_emptyDB)
  have "\<exists>s'. loadSettings emptyDB = Inr (?d, s') \<and> getSettings s' = Some ?d \<and>
             dom (settings s') = insert 1 (dom (settings emptyDB))"
    using loadSettings_lazy_default [of emptyDB, THEN conjunct2, THEN conjunct1] n by (rule mp)
  then obtain s' where l: "loadSettings emptyDB = Inr (?d, s')" and g: "getSettings s' = Some ?d"
    by blast
  have s': "s' = ?s1" using l by (simp add: loadSettings_None [OF n])
  have again: "loadSettings s' = Inr (?d, s')"
    using loadSettings_lazy_default [of s' ?d, THEN conjunct1] g by (rule mp)
  show ?thesis
    using n l g again by (simp only: s' simp_thms)
qed

text \<open>
  C8. For the settings record the context holds (what the last \<^verbatim>\<open>loadSettings\<close>
  returned), submitting the settings form and loading again returns a record whose
  uploaded payload is the one before, whose drawn payload is the one before unless the
  signature pad holds a drawing (then it is the pad's image), and whose admin name,
  block, signature type and typed signature are the form's.
\<close>

theorem settings_partial_save_frame:
  assumes "loadSettings s0 = Inr (cur, s)"
  shows "\<exists>r s'. SettingsPage_onSubmit (Some cur) sigPad data s = Inr (r, s') \<and>
           getSettings s' = Some r \<and> loadSettings s' = Inr (r, s') \<and>
           uploadedSignature r = uploadedSignature cur \<and>
           ((sigPad = None \<or> (\<exists>pad. sigPad = Some pad \<and> isEmpty pad)) \<longrightarrow>
              drawnSignature r = drawnSignature cur) \<and>
           (\<forall>pad. sigPad = Some pad \<and> \<not> isEmpty pad \<longrightarrow> drawnSignature r = toDataURL pad) \<and>
           adminName r = adminName data \<and> Settings.blockNumber r = Settings.blockNumber data \<and>
           signatureType r = signatureType data \<and> typedSignature r = typedSignature data \<and>
           Settings.id r = Some 1"
  by (auto simp add: SettingsPage_onSubmit_def Let_def saveSettings_Inr getSettings_put
        loadSettings_Some orEmpty_def split: option.splits)

theorem settings_partial_save_frame_witness:
  "loadSettings (run [SaveSettings
       \<lparr>Settings.id = Some 5, adminName = ''Admin'', blockNumber = ''Society Office'',
        signatureType = typed, typedSignature = ''For Neelkanth Society'',
        drawnSignature = ''data:image/png;base64,DDDD'',
        uploadedSignature = ''data:image/png;base64,UUUU''\<rparr>])
     = Inr (\<lparr>Settings.id = Some 1, adminName = ''Admin'', blockNumber = ''Society Office'',
             signatureType = typed, typedSignature = ''For Neelkanth Society'',
             drawnSignature = ''data:image/png;base64,DDDD'',
             uploadedSignature = ''data:image/png;base64,UUUU''\<rparr>,
            run [SaveSettings
       \<lparr>Settings.id = Some 5, adminName = ''Admin'', blockNumber = ''Society Office'',
        signatureType = typed, typedSignature = ''For Neelkanth Society'',
        drawnSignature = ''data:image/png;base64,DDDD'',
        uploadedSignature = ''data:image/png;base64,UUUU''\<rparr>]) \<and>
   (\<exists>s'. SettingsPage_onSubmit
           (Some \<lparr>Settings.id = Some 1, adminName = ''Admin'', blockNumber = ''Society Office'',
             signatureType = typed, typedSignature = ''For Neelkanth Society'',
             drawnSignature = ''data:image/png;base64,DDDD'',
             uploadedSignature = ''data:image/png;base64,UUUU''\<rparr>)
           (Some \<lparr>isEmpty = True, toDataURL = ''data:image/png;base64,EEEE''\<rparr>)
           \<lparr>Settings.id = None, adminName = ''Asha'', blockNumber = ''B-7'',
            signatureType = drawn, typedSignature = ''Asha'',
            drawnSignature = [], uploadedSignature = []\<rparr>
           (run [SaveSettings
       \<lparr>Settings.id = Some 5, adminName = ''Admin'', blockNumber = ''Society Office'',
        signatureType = typed, typedSignature = ''For Neelkanth Society'',
        drawnSignature = ''data:image/png;base64,DDDD'',
        uploadedSignature = ''data:image/png;base64,UUUU''\<rparr>])
      = Inr (\<lparr>Settings.id = Some 1, adminName = ''Asha'', blockNumber = ''B-7'',
              signatureType = drawn, typedSignature = ''Asha'',
              drawnSignature = ''data:image/png;base64,DDDD'',
              uploadedSignature = ''data:image/png;base64,UUUU''\<rparr>, s'))"
proof -
  let ?x = "\<lparr>Settings.id = Some 5, adminName = ''Admin'', blockNumber = ''Society Office'',
        signatureType = typed, typedSignature = ''For Neelkanth Society'',
        drawnSignature = ''data:image/png;base64,DDDD'',
        uploadedSignature = ''data:image/png;base64,UUUU''\<rparr>"
  let ?cur = "?x\<lparr>Settings.id := Some 1\<rparr>"
  let ?pad = "\<lparr>isEmpty = True, toDataURL = ''data:image/png;base64,EEEE''\<rparr>"
  let ?data = "\<lparr>Settings.id = None, adminName = ''Asha'', blockNumber = ''B-7'',
            signatureType = drawn, typedSignature = ''Asha'',
            drawnSignature = [], uploadedSignature = []\<rparr>"
  let ?s0 = "run [SaveSettings ?x]"
  have g: "getSettings ?s0 = Some ?cur"
    by (simp add: run_def saveSettings_Inr getSettings_put)
  have l: "loadSettings ?s0 = Inr (?cur, ?s0)"
    using g by (rule loadSettings_Some)
  obtain r s' where
    sub: "SettingsPage_onSubmit (Some ?cur) (Some ?pad) ?data ?s0 = Inr (r, s')"
    and f: "uploadedSignature r = uploadedSignature ?cur"
      "(Some ?pad = None \<or> (\<exists>pad. Some ?pad = Some pad \<and> isEmpty pad)) \<longrightarrow>
         drawnSignature r = drawnSignature ?cur"
      "adminName r = adminName ?data" "Settings.blockNumber r = Settings.blockNumber ?data"
      "signatureType r = signatureType ?data" "typedSignature r = typedSignature ?data"
      "Settings.id r = Some 1"
    using settings_partial_save_frame [OF l, of "Some ?pad" ?data] by blast
  have "r = \<lparr>Settings.id = Some 1, adminName = ''Asha'', blockNumber = ''B-7'',
              signatureType = drawn, typedSignature = ''Asha'',
              drawnSignature = ''data:image/png;base64,DDDD'',
              uploadedSignature = ''data:image/png;base64,UUUU''\<rparr>"
    using f by (cases r) simp
  with sub l show ?thesis by simp
qed

text \<open>
  C10. \<^verbatim>\<open>saveSettings\<close> writes the record it is given under key 1 with its \<open>id\<close> set to
  1, whatever \<open>id\<close> the caller supplied; after any sequence of calls of the data-access
  layer every settings record is stored under key 1 with \<open>id = 1\<close>, so the collection
  has no other key and at most one record.
\<close>

theorem settings_key_invariant:
  "(\<exists>s'. saveSettings x s = Inr (1, s') \<and>
         settings s' = (settings s)(1 \<mapsto> x\<lparr>Settings.id := Some 1\<rparr>)) \<and>
   (\<forall>k r. settings (run ops) k = Some r \<longrightarrow> k = 1 \<and> Settings.id r = Some 1) \<and>
   dom (settings (run ops)) \<subseteq> {1} \<and>
   card (dom (settings (run ops))) \<le> 1"
proof -
  have sub: "dom (settings (run ops)) \<subseteq> {1}" by (rule dom_settings_run)
  have "card (dom (settings (run ops))) \<le> card {1::nat}"
    using sub by (intro card_mono) simp_all
  then have c: "card (dom (settings (run ops))) \<le> 1" by simp
  have k: "\<forall>k r. settings (run ops) k = Some r \<longrightarrow> k = 1 \<and> Settings.id r = Some 1"
    using settings_run_key by blast
  have s: "\<exists>s'. saveSettings x s = Inr (1, s') \<and>
               settings s' = (settings s)(1 \<mapsto> x\<lparr>Settings.id := Some 1\<rparr>)"
    by (simp add: saveSettings_Inr)
  from s k sub c show ?thesis by blast
qed

theorem settings_key_invariant_witness:
  "saveSettings \<lparr>Settings.id = Some 5, adminName = ''Admin'', blockNumber = ''Society Office'',
        signatureType = typed, typedSignature = ''For Neelkanth Society'',
        drawnSignature = [], uploadedSignature = []\<rparr> emptyDB
     = Inr (1, run [SaveSettings \<lparr>Settings.id = Some 5, adminName = ''Admin'', blockNumber = ''Society Office'',
        signatureType = typed, typedSignature = ''For Neelkanth Society'',
        drawnSignature = [], uploadedSignature = []\<rparr>]) \<and>
   settings (run [SaveSettings \<lparr>Settings.id = Some 5, adminName = ''Admin'', blockNumber = ''Society Office'',
        signatureType = typed, typedSignature = ''For Neelkanth Society'',
        drawnSignature = [], uploadedSignature = []\<rparr>]) 1
     = Some \<lparr>Settings.id = Some 1, adminName = ''Admin'', blockNumber = ''Society Office'',
        signatureType = typed, typedSignature = ''For Neelkanth Society'',
        drawnSignature = [], uploadedSignature = []\<rparr> \<and>
   settings (run [SaveSettings \<lparr>Settings.id = Some 5, adminName = ''Admin'', blockNumber = ''Society Office'',
        signatureType = typed, typedSignature = ''For Neelkanth Society'',
        drawnSignature = [], uploadedSignature = []\<rparr>]) 5 = None \<and>
   card (dom (settings (run [SaveSettings \<lparr>Settings.id = Some 5, adminName = ''Admin'', blockNumber = ''Society Office'',
        signatureType = typed, typedSignature = ''For Neelkanth Society'',
        drawnSignature = [], uploadedSignature = []\<rparr>]))) \<le> 1"
proof -
  let ?x = "\<lparr>Settings.id = Some 5, adminName = ''Admin'', blockNumber = ''Society Office'',
        signatureType = typed, typedSignature = ''For Neelkanth Society'',
        drawnSignature = [], uploadedSignature = []\<rparr>"
  note t = settings_key_invariant [of ?x emptyDB "[SaveSettings ?x]"]
  have a: "saveSettings ?x emptyDB = Inr (1, run [SaveSettings ?x])"
    by (simp add: run_def saveSettings_Inr)
  have b: "settings (run [SaveSettings ?x]) 1 = Some (?x\<lparr>Settings.id := Some 1\<rparr>)"
    by (simp add: run_def saveSettings_Inr)
  have c: "settings (run [SaveSettings ?x]) 5 = None"
  proof (cases "settings (run [SaveSettings ?x]) 5")
    case None
    then show ?thesis .
  next
    case (Some r)
    then have "(5::nat) = 1" using t by blast
    then show ?thesis by simp
  qed
  have d: "card (dom (settings (run [SaveSettings ?x]))) \<le> 1"
    using t by blast
  from a b c d show ?thesis by simp
qed

section \<open>Receipts\<close>

text \<open>
  C1. A receipt creation (the new-receipt page mounted, its effect run, the form
  submitted) that succeeds stores the receipt under the returned key with the number
  \<^verbatim>\<open>NSM-\<close> followed by decimal digits whose value is the receipt count before the
  creation plus one, padded with zeros to four digits (exactly four below 10000). After
  any number of creations from the empty database, of form data that carries no
  \<open>id\<close>, the count is the number of creations and the next creation succeeds with the
  key count + 1. From the empty database the first creation of the example receipt
  returns key 1 and number \<^verbatim>\<open>NSM-0001\<close>, the second key 2 and \<^verbatim>\<open>NSM-0002\<close>.
\<close>

theorem receipt_numbering:
  "(Receipts_create Number data s = Inr (k, s') \<longrightarrow>
      (\<exists>r digits. getReceipt k s' = Some r \<and> receiptNumber r = ''NSM-'' @ digits \<and>
         list_all isDigit digits \<and> decimalValue digits = length (getAllReceipts s) + 1 \<and>
         4 \<le> length digits \<and>
         (length (getAllReceipts s) + 1 < 10000 \<longrightarrow> length digits = 4))) \<and>
   (list_all (\<lambda>d. Receipt.id d = None) ds \<and> Receipt.id data = None \<longrightarrow>
      length (getAllReceipts (Receipts_createAll Number ds emptyDB)) = length ds \<and>
      (\<exists>s''. Receipts_create Number data (Receipts_createAll Number ds emptyDB) = Inr (length ds + 1, s''))) \<and>
   (\<exists>s1 s2 r1 r2.
      Receipts_create Number
        \<lparr>Receipt.id = None, receiptNumber = rn, name = ''A'', blockNumber = ''12'', amount = ''500'',
         date = ''2024-01-01'', forMonth = ''2024-01'', paymentMethod = Cash\<rparr> emptyDB = Inr (1, s1) \<and>
      getReceipt 1 s1 = Some r1 \<and> receiptNumber r1 = ''NSM-0001'' \<and>
      Receipts_create Number
        \<lparr>Receipt.id = None, receiptNumber = rn, name = ''A'', blockNumber = ''12'', amount = ''500'',
         date = ''2024-01-01'', forMonth = ''2024-01'', paymentMethod = Cash\<rparr> s1 = Inr (2, s2) \<and>
      getReceipt 2 s2 = Some r2 \<and> receiptNumber r2 = ''NSM-0002'')"
proof (intro conjI impI)
  assume c: "Receipts_create Number data s = Inr (k, s')"
  let ?n = "length (getAllReceipts s)"
  obtain digits where d: "NewReceiptPage_receiptNumber ?n = ''NSM-'' @ digits" "list_all isDigit digits"
      "decimalValue digits = ?n + 1" "4 \<le> length digits" "?n + 1 < 10000 \<longrightarrow> length digits = 4"
    using receiptNumber_shape [of ?n] by blast
  let ?r = "(NewReceiptPage_newReceipt Number ?n data)\<lparr>Receipt.id := Some k\<rparr>"
  have "getReceipt k s' = Some ?r" using c by (rule create_stored)
  moreover have "receiptNumber ?r = ''NSM-'' @ digits" using d(1) by (simp add: newReceipt_number)
  ultimately show "\<exists>r digits. getReceipt k s' = Some r \<and> receiptNumber r = ''NSM-'' @ digits \<and>
         list_all isDigit digits \<and> decimalValue digits = ?n + 1 \<and> 4 \<le> length digits \<and>
         (?n + 1 < 10000 \<longrightarrow> length digits = 4)"
    using d(2-5) by blast
next
  assume h: "list_all (\<lambda>d. Receipt.id d = None) ds \<and> Receipt.id data = None"
  have i: "seqInv (0 + length ds) (Receipts_createAll Number ds emptyDB)"
    using seqInv_emptyDB h [THEN conjunct1] by (rule createAll_seq)
  then have i': "seqInv (length ds) (Receipts_createAll Number ds emptyDB)" by simp
  show "length (getAllReceipts (Receipts_createAll Number ds emptyDB)) = length ds"
    using seqInv_count [OF i'] by (simp add: fetchLastReceipt_def)
  show "\<exists>s''. Receipts_create Number data (Receipts_createAll Number ds emptyDB) = Inr (length ds + 1, s'')"
    using create_seq [OF i' h [THEN conjunct2]] by auto
next
  let ?d = "\<lparr>Receipt.id = None, receiptNumber = rn, name = ''A'', blockNumber = ''12'', amount = ''500'',
         date = ''2024-01-01'', forMonth = ''2024-01'', paymentMethod = Cash\<rparr>"
  have idd: "Receipt.id ?d = None" by simp
  obtain s1 where c1: "Receipts_create Number ?d emptyDB = Inr (Suc 0, s1)" and i1: "seqInv (Suc 0) s1"
    using create_seq [OF seqInv_emptyDB idd] by blast
  obtain s2 where c2: "Receipts_create Number ?d s1 = Inr (Suc (Suc 0), s2)"
    using create_seq [OF i1 idd] by blast
  have n0: "length (getAllReceipts emptyDB) = 0" by (simp add: emptyDB_receipts)
  have n1: "length (getAllReceipts s1) = 1"
    using seqInv_count [OF i1] by (simp add: fetchLastReceipt_def)
  have g1: "receiptNumber (the (getReceipt (Suc 0) s1)) = ''NSM-0001''"
    by (simp add: create_stored [OF c1] n0 receiptNumber_0 newReceipt_number)
  have g2: "receiptNumber (the (getReceipt (Suc (Suc 0)) s2)) = ''NSM-0002''"
    using receiptNumber_1 by (simp add: create_stored [OF c2] n1 newReceipt_number)
  have e1: "getReceipt (Suc 0) s1 = Some (the (getReceipt (Suc 0) s1))"
    by (simp add: create_stored [OF c1])
  have e2: "getReceipt (Suc (Suc 0)) s2 = Some (the (getReceipt (Suc (Suc 0)) s2))"
    by (simp add: create_stored [OF c2])
  have two: "(2::nat) = Suc (Suc 0)" by simp
  show "\<exists>s1 s2 r1 r2.
      Receipts_create Number ?d emptyDB = Inr (1, s1) \<and>
      getReceipt 1 s1 = Some r1 \<and> receiptNumber r1 = ''NSM-0001'' \<and>
      Receipts_create Number ?d s1 = Inr (2, s2) \<and>
      getReceipt 2 s2 = Some r2 \<and> receiptNumber r2 = ''NSM-0002''"
    unfolding two One_nat_def
    using c1 c2 e1 e2 g1 g2 by blast
qed

theorem receipt_numbering_witness:
  "list_all (\<lambda>d. Receipt.id d = None)
     [\<lparr>Receipt.id = None, receiptNumber = [], name = ''A'', blockNumber = ''12'', amount = ''500'',
       date = ''2024-01-01'', forMonth = ''2024-01'', paymentMethod = Cash\<rparr>] \<and>
   (\<exists>s'' r digits.
      Receipts_create (\<lambda>a. Fin (of_nat (decimalValue a)))
        \<lparr>Receipt.id = None, receiptNumber = [], name = ''B'', blockNumber = ''14'', amount = ''750'',
         date = ''2024-02-01'', forMonth = ''2024-02'', paymentMethod = Online\<rparr>
        (Receipts_createAll (\<lambda>a. Fin (of_nat (decimalValue a)))
           [\<lparr>Receipt.id = None, receiptNumber = [], name = ''A'', blockNumber = ''12'', amount = ''500'',
             date = ''2024-01-01'', forMonth = ''2024-01'', paymentMethod = Cash\<rparr>] emptyDB)
        = Inr (2, s'') \<and>
      getReceipt 2 s'' = Some r \<and> receiptNumber r = ''NSM-'' @ digits \<and>
      list_all isDigit digits \<and> decimalValue digits = 2 \<and> length digits = 4)"
proof -
  let ?a = "\<lparr>Receipt.id = None, receiptNumber = [], name = ''A'', blockNumber = ''12'', amount = ''500'',
       date = ''2024-01-01'', forMonth = ''2024-01'', paymentMethod = Cash\<rparr>"
  let ?b = "\<lparr>Receipt.id = None, receiptNumber = [], name = ''B'', blockNumber = ''14'', amount = ''750'',
         date = ''2024-02-01'', forMonth = ''2024-02'', paymentMethod = Online\<rparr>"
  let ?N = "\<lambda>a. Fin (of_nat (decimalValue a))"
  let ?s = "Receipts_createAll ?N [?a] emptyDB"
  have h: "list_all (\<lambda>d. Receipt.id d = None) [?a] \<and> Receipt.id ?b = None" by simp
  have "length (getAllReceipts ?s) = length [?a] \<and>
        (\<exists>s''. Receipts_create ?N ?b ?s = Inr (length [?a] + 1, s''))"
    using receipt_numbering [where Number = ?N and data = ?b and ds = "[?a]", THEN conjunct2, THEN conjunct1] h by (rule mp)
  then obtain s'' where n: "length (getAllReceipts ?s) = 1"
    and c: "Receipts_create ?N ?b ?s = Inr (2, s'')" by auto
  have "\<exists>r digits. getReceipt 2 s'' = Some r \<and> receiptNumber r = ''NSM-'' @ digits \<and>
         list_all isDigit digits \<and> decimalValue digits = length (getAllReceipts ?s) + 1 \<and>
         4 \<le> length digits \<and>
         (length (getAllReceipts ?s) + 1 < 10000 \<longrightarrow> length digits = 4)"
    using receipt_numbering [where Number = ?N and data = ?b and s = ?s and k = 2 and s' = s'', THEN conjunct1] c by (rule mp)
  then have "\<exists>r digits. getReceipt 2 s'' = Some r \<and> receiptNumber r = ''NSM-'' @ digits \<and>
         list_all isDigit digits \<and> decimalValue digits = 1 + 1 \<and>
         4 \<le> length digits \<and> ((1::nat) + 1 < 10000 \<longrightarrow> length digits = 4)"
    by (simp only: n)
  then obtain r digits where "getReceipt 2 s'' = Some r" "receiptNumber r = ''NSM-'' @ digits"
    "list_all isDigit digits" "decimalValue digits = 2" "length digits = 4"
    by auto
  with c h show ?thesis by blast
qed

text \<open>
  C2, as the claim states it for any state of the store, fails in a state that already
  holds the receipt number: both insertions are rejected, none succeeds.
\<close>

theorem receipt_number_unique_counterexample:
  "addReceipt \<lparr>Receipt.id = None, receiptNumber = ''NSM-0001'', name = ''B'', blockNumber = ''14'',
               amount = Fin 750, date = ''2024-02-01'', forMonth = ''2024-02'', paymentMethod = Online\<rparr>
     (run [AddReceipt \<lparr>Receipt.id = None, receiptNumber = ''NSM-0001'', name = ''A'',
                        blockNumber = ''12'', amount = Fin 500, date = ''2024-01-01'',
                        forMonth = ''2024-01'', paymentMethod = Cash\<rparr>])
     = Inl ConstraintViolation \<and>
   addReceipt \<lparr>Receipt.id = None, receiptNumber = ''NSM-0001'', name = ''C'', blockNumber = ''16'',
               amount = Fin 900, date = ''2024-02-01'', forMonth = ''2024-02'', paymentMethod = Cheque\<rparr>
     (run [AddReceipt \<lparr>Receipt.id = None, receiptNumber = ''NSM-0001'', name = ''A'',
                        blockNumber = ''12'', amount = Fin 500, date = ''2024-01-01'',
                        forMonth = ''2024-01'', paymentMethod = Cash\<rparr>])
     = Inl ConstraintViolation"
  by (simp add: run_def emptyDB_def addReceipt_def db_add_receipts_def Let_def)

text \<open>
  C2, amended. In any state the data-access layer can reach: where the store holds no
  receipt with that number, of two receipts with the same number the one stored first is
  inserted and the other is rejected with \<open>ConstraintViolation\<close>; where the store
  already holds one, both are rejected; and no two receipts in the store share a receipt
  number.
\<close>

theorem receipt_number_unique:
  assumes "receiptNumber r1 = receiptNumber r2" and "Receipt.id r1 = None"
  shows "(receiptNumber r1 \<notin> set (map receiptNumber (getAllReceipts (run ops))) \<longrightarrow>
            (\<exists>k s1. addReceipt r1 (run ops) = Inr (k, s1) \<and>
                    addReceipt r2 s1 = Inl ConstraintViolation)) \<and>
         (receiptNumber r1 \<in> set (map receiptNumber (getAllReceipts (run ops))) \<longrightarrow>
            addReceipt r1 (run ops) = Inl ConstraintViolation \<and>
            addReceipt r2 (run ops) = Inl ConstraintViolation) \<and>
         distinct (map receiptNumber (getAllReceipts (run ops)))"
proof (intro conjI impI)
  assume fresh: "receiptNumber r1 \<notin> set (map receiptNumber (getAllReceipts (run ops)))"
  have "list_all (\<lambda>x. fst x < keyGen (receipts (run ops))) (entries (receipts (run ops)))"
    using receiptsInv_run [of ops] by (simp add: receiptsInv_def)
  then have lt: "\<forall>x\<in>set (entries (receipts (run ops))). fst x < keyGen (receipts (run ops))"
    by (simp add: list_all_iff)
  from addReceipt_fresh [OF assms(2) lt fresh]
  obtain k s1 where a: "addReceipt r1 (run ops) = Inr (k, s1)" by blast
  have "receiptNumber r2 \<in> set (map receiptNumber (getAllReceipts s1))"
    using getAllReceipts_after_add [OF a] assms(1) by simp
  then have "addReceipt r2 s1 = Inl ConstraintViolation" by (rule addReceipt_duplicate)
  with a show "\<exists>k s1. addReceipt r1 (run ops) = Inr (k, s1) \<and>
                    addReceipt r2 s1 = Inl ConstraintViolation" by blast
next
  assume "receiptNumber r1 \<in> set (map receiptNumber (getAllReceipts (run ops)))"
  then show "addReceipt r1 (run ops) = Inl ConstraintViolation"
    by (rule addReceipt_duplicate)
next
  assume "receiptNumber r1 \<in> set (map receiptNumber (getAllReceipts (run ops)))"
  then have "receiptNumber r2 \<in> set (map receiptNumber (getAllReceipts (run ops)))"
    using assms(1) by simp
  then show "addReceipt r2 (run ops) = Inl ConstraintViolation"
    by (rule addReceipt_duplicate)
next
  show "distinct (map receiptNumber (getAllReceipts (run ops)))"
    using receiptsInv_run [of ops] by (simp add: receiptsInv_def)
qed

theorem receipt_number_unique_witness:
  "receiptNumber \<lparr>Receipt.id = None, receiptNumber = ''NSM-0002'', name = ''B'', blockNumber = ''14'',
               amount = Fin 750, date = ''2024-02-01'', forMonth = ''2024-02'', paymentMethod = Online\<rparr>
     = receiptNumber \<lparr>Receipt.id = None, receiptNumber = ''NSM-0002'', name = ''C'', blockNumber = ''16'',
               amount = Fin 900, date = ''2024-02-01'', forMonth = ''2024-02'', paymentMethod = Cheque\<rparr> \<and>
   ''NSM-0002'' \<notin> set (map receiptNumber (getAllReceipts
     (run [AddReceipt \<lparr>Receipt.id = None, receiptNumber = ''NSM-0001'', name = ''A'',
                        blockNumber = ''12'', amount = Fin 500, date = ''2024-01-01'',
                        forMonth = ''2024-01'', paymentMethod = Cash\<rparr>]))) \<and>
   (\<exists>k s1.
      addReceipt \<lparr>Receipt.id = None, receiptNumber = ''NSM-0002'', name = ''B'', blockNumber = ''14'',
               amount = Fin 750, date = ''2024-02-01'', forMonth = ''2024-02'', paymentMethod = Online\<rparr>
        (run [AddReceipt \<lparr>Receipt.id = None, receiptNumber = ''NSM-0001'', name = ''A'',
                        blockNumber = ''12'', amount = Fin 500, date = ''2024-01-01'',
                        forMonth = ''2024-01'', paymentMethod = Cash\<rparr>]) = Inr (k, s1) \<and>
      addReceipt \<lparr>Receipt.id = None, receiptNumber = ''NSM-0002'', name = ''C'', blockNumber = ''16'',
               amount = Fin 900, date = ''2024-02-01'', forMonth = ''2024-02'', paymentMethod = Cheque\<rparr> s1
        = Inl ConstraintViolation)"
proof -
  let ?a = "\<lparr>Receipt.id = None, receiptNumber = ''NSM-0001'', name = ''A'',
                        blockNumber = ''12'', amount = Fin 500, date = ''2024-01-01'',
                        forMonth = ''2024-01'', paymentMethod = Cash\<rparr>"
  let ?b = "\<lparr>Receipt.id = None, receiptNumber = ''NSM-0002'', name = ''B'', blockNumber = ''14'',
               amount = Fin 750, date = ''2024-02-01'', forMonth = ''2024-02'', paymentMethod = Online\<rparr>"
  let ?c = "\<lparr>Receipt.id = None, receiptNumber = ''NSM-0002'', name = ''C'', blockNumber = ''16'',
               amount = Fin 900, date = ''2024-02-01'', forMonth = ''2024-02'', paymentMethod = Cheque\<rparr>"
  have h1: "receiptNumber ?b = receiptNumber ?c" by simp
  have h2: "Receipt.id ?b = None" by simp
  have h3: "receiptNumber ?b \<notin> set (map receiptNumber (getAllReceipts (run [AddReceipt ?a])))"
    by (simp add: run_def emptyDB_def addReceipt_def db_add_receipts_def Let_def
          getAllReceipts_def db_getAll_receipts_def)
  have "\<exists>k s1. addReceipt ?b (run [AddReceipt ?a]) = Inr (k, s1) \<and>
                addReceipt ?c s1 = Inl ConstraintViolation"
    using receipt_number_unique [OF h1 h2, of "[AddReceipt ?a]", THEN conjunct1] h3 by (rule mp)
  with h1 h3 show ?thesis by simp
qed

section \<open>Expenses\<close>

text \<open>
  C6, as the claim states it, fails in its last part: the amounts are doubles and every
  addition rounds. With the stored amounts \<open>2 ^ 53\<close>, \<open>- 2 ^ 53\<close> and \<open>1\<close> (one date, so
  shown in the order stored) the amounts sum to \<open>1\<close> and the page shows \<open>1\<close>, but the report
  adds \<open>2 ^ 53 + 1\<close> to \<open>2 ^ 53\<close> and shows the net balance \<open>0\<close>.
\<close>

theorem expense_net_balance_counterexample:
  "getAllExpenses
     (run [AddExpense \<lparr>Expense.id = None, date = ''2024-01-05'', description = ''Sale of plot'',
                        amount = Fin 9007199254740992\<rparr>,
           AddExpense \<lparr>Expense.id = None, date = ''2024-01-05'', description = ''Purchase of plot'',
                        amount = Fin (- 9007199254740992)\<rparr>,
           AddExpense \<lparr>Expense.id = None, date = ''2024-01-05'', description = ''Interest'',
                        amount = Fin 1\<rparr>])
     = [\<lparr>Expense.id = Some 1, date = ''2024-01-05'', description = ''Sale of plot'',
          amount = Fin 9007199254740992\<rparr>,
        \<lparr>Expense.id = Some 2, date = ''2024-01-05'', description = ''Purchase of plot'',
          amount = Fin (- 9007199254740992)\<rparr>,
        \<lparr>Expense.id = Some 3, date = ''2024-01-05'', description = ''Interest'',
          amount = Fin 1\<rparr>] \<and>
   (\<Sum>e\<leftarrow>[\<lparr>Expense.id = Some 1, date = ''2024-01-05'', description = ''Sale of plot'',
          amount = Fin 9007199254740992\<rparr>,
        \<lparr>Expense.id = Some 2, date = ''2024-01-05'', description = ''Purchase of plot'',
          amount = Fin (- 9007199254740992)\<rparr>,
        \<lparr>Expense.id = Some 3, date = ''2024-01-05'', description = ''Interest'',
          amount = Fin 1\<rparr>]. valueOf (Expense.amount e)) = 1 \<and>
   totalExpenses
     [\<lparr>Expense.id = Some 1, date = ''2024-01-05'', description = ''Sale of plot'',
          amount = Fin 9007199254740992\<rparr>,
        \<lparr>Expense.id = Some 2, date = ''2024-01-05'', description = ''Purchase of plot'',
          amount = Fin (- 9007199254740992)\<rparr>,
        \<lparr>Expense.id = Some 3, date = ''2024-01-05'', description = ''Interest'',
          amount = Fin 1\<rparr>] = Fin 1 \<and>
   netBalance
     [\<lparr>Expense.id = Some 1, date = ''2024-01-05'', description = ''Sale of plot'',
          amount = Fin 9007199254740992\<rparr>,
        \<lparr>Expense.id = Some 2, date = ''2024-01-05'', description = ''Purchase of plot'',
          amount = Fin (- 9007199254740992)\<rparr>,
        \<lparr>Expense.id = Some 3, date = ''2024-01-05'', description = ''Interest'',
          amount = Fin 1\<rparr>] = Fin 0"
proof -
  have stored: "getAllExpenses
     (run [AddExpense \<lparr>Expense.id = None, date = ''2024-01-05'', description = ''Sale of plot'',
                        amount = Fin 9007199254740992\<rparr>,
           AddExpense \<lparr>Expense.id = None, date = ''2024-01-05'', description = ''Purchase of plot'',
                        amount = Fin (- 9007199254740992)\<rparr>,
           AddExpense \<lparr>Expense.id = None, date = ''2024-01-05'', description = ''Interest'',
                        amount = Fin 1\<rparr>])
     = [\<lparr>Expense.id = Some 1, date = ''2024-01-05'', description = ''Sale of plot'',
          amount = Fin 9007199254740992\<rparr>,
        \<lparr>Expense.id = Some 2, date = ''2024-01-05'', description = ''Purchase of plot'',
          amount = Fin (- 9007199254740992)\<rparr>,
        \<lparr>Expense.id = Some 3, date = ''2024-01-05'', description = ''Interest'',
          amount = Fin 1\<rparr>]"
    by (simp add: run_def emptyDB_def addExpense_def db_add_expenses_def Let_def
          getAllExpenses_def db_getAll_expenses_def)
  have page: "Number_add (Number_add (Number_add (Fin 0) (Fin 9007199254740992))
                (Fin (- 9007199254740992))) (Fin 1) = Fin 1"
    by (simp add: roundToDouble_2_53 roundToDouble_1 roundToDouble_0)
  have income: "Number_add (Number_add (Fin 0) (Fin 9007199254740992)) (Fin 1)
                  = Fin 9007199254740992"
    by (simp add: roundToDouble_2_53 roundToDouble_tie)
  have outlay: "Number_add (Fin 0) (Math_abs (Fin (- 9007199254740992))) = Fin 9007199254740992"
    by (simp add: roundToDouble_2_53)
  have net: "Number_subtract (Fin 9007199254740992) (Fin 9007199254740992) = Fin 0"
    by (simp add: Number_subtract_def roundToDouble_0)
  show ?thesis
    using page income outlay net
    by (simp add: stored totalExpenses_def netBalance_def totalIncome_def totalExpense_def)
qed

text \<open>
  C6, amended. In any state the data-access layer can reach, submitting the expense form
  (its data carrying no \<open>id\<close>) appends one record with the assigned key, the form's date
  and description, and as amount the number \<^verbatim>\<open>Number\<close> reads from the entry in mode
  \<^verbatim>\<open>add\<close>, its negation in mode \<^verbatim>\<open>subtract\<close>, of the same magnitude; for a positive
  entry the stored amount is positive for income and negative for an outlay. Where the
  stored amounts are whole numbers whose absolute values add up to at most \<open>2 ^ 53\<close>, then
  for the stored expenses shown in any order the page's net balance and the report's net
  balance are the sum of all stored amounts, the report's being the sum of the positive
  amounts minus the sum of the absolute values of the negative ones.
\<close>

theorem expense_sign_convention:
  "(Expense.id data = None \<longrightarrow>
      (\<exists>k s' e. ExpensesPage_onSubmit Number mode data (run ops) = Inr (k, s') \<and>
         getAllExpenses s' = getAllExpenses (run ops) @ [e] \<and>
         Expense.id e = Some k \<and> Expense.date e = Expense.date data \<and>
         description e = description data \<and>
         (mode = mode_add \<longrightarrow> Expense.amount e = Number (Expense.amount data)) \<and>
         (mode = mode_subtract \<longrightarrow>
            Expense.amount e = Number_unaryMinus (Number (Expense.amount data))) \<and>
         Math_abs (Expense.amount e) = Math_abs (Number (Expense.amount data)) \<and>
         (Number_lessThan (Fin 0) (Number (Expense.amount data)) \<longrightarrow>
            (mode = mode_add \<longrightarrow> Number_lessThan (Fin 0) (Expense.amount e)) \<and>
            (mode = mode_subtract \<longrightarrow> Number_lessThan (Expense.amount e) (Fin 0))))) \<and>
   (mset shown = mset (getAllExpenses s) \<and>
    map Expense.amount shown = map (\<lambda>n. Fin (of_int n)) ns \<and>
    (\<Sum>n\<leftarrow>ns. \<bar>n\<bar>) \<le> 2 ^ 53 \<longrightarrow>
      totalExpenses shown = Fin (\<Sum>e\<leftarrow>getAllExpenses s. valueOf (Expense.amount e)) \<and>
      netBalance shown = Fin (\<Sum>e\<leftarrow>getAllExpenses s. valueOf (Expense.amount e)) \<and>
      netBalance shown = Number_subtract (totalIncome shown) (totalExpense shown) \<and>
      totalIncome shown = Fin (of_int (sum_list (filter (\<lambda>n. 0 < n) ns))) \<and>
      totalExpense shown = Fin (of_int (\<Sum>n\<leftarrow>filter (\<lambda>n. n < 0) ns. \<bar>n\<bar>)))"
proof (intro conjI impI)
  assume idn: "Expense.id data = None"
  let ?a = "if mode = mode_add then Number (Expense.amount data)
            else Number_unaryMinus (Number (Expense.amount data))"
  let ?x = "\<lparr>Expense.id = Expense.id data, date = Expense.date data,
             description = description data, amount = ?a\<rparr>"
  let ?s = "run ops"
  let ?k = "keyGen (expenses ?s)"
  let ?e = "?x\<lparr>Expense.id := Some ?k\<rparr>"
  have "list_all (\<lambda>x. fst x < keyGen (expenses ?s)) (entries (expenses ?s))"
    using expensesInv_run [of ops] by (simp add: expensesInv_def)
  then have lt: "\<forall>e\<in>set (entries (expenses ?s)). fst e < keyGen (expenses ?s)"
    by (simp add: list_all_iff)
  have idx: "Expense.id ?x = None" using idn by simp
  let ?s' = "?s\<lparr>expenses := \<lparr>entries = entries (expenses ?s) @ [(?k, ?e)], keyGen = Suc ?k\<rparr>\<rparr>"
  have add: "addExpense ?x ?s = Inr (?k, ?s')"
    using idx lt by (rule addExpense_fresh)
  have sub: "ExpensesPage_onSubmit Number mode data ?s = Inr (?k, ?s')"
    using add by (simp only: ExpensesPage_onSubmit_def Let_def)
  have all: "getAllExpenses ?s' = getAllExpenses ?s @ [?e]"
    by (simp add: getAllExpenses_def db_getAll_expenses_def)
  have e1: "Expense.id ?e = Some ?k" "Expense.date ?e = Expense.date data"
    "description ?e = description data" by simp_all
  have e2: "mode = mode_add \<longrightarrow> Expense.amount ?e = Number (Expense.amount data)" by simp
  have e3: "mode = mode_subtract \<longrightarrow>
              Expense.amount ?e = Number_unaryMinus (Number (Expense.amount data))" by simp
  have e4: "Math_abs (Expense.amount ?e) = Math_abs (Number (Expense.amount data))"
    by (simp add: Math_abs_unaryMinus)
  have e5: "Number_lessThan (Fin 0) (Number (Expense.amount data)) \<longrightarrow>
            (mode = mode_add \<longrightarrow> Number_lessThan (Fin 0) (Expense.amount ?e)) \<and>
            (mode = mode_subtract \<longrightarrow> Number_lessThan (Expense.amount ?e) (Fin 0))"
    by (simp add: lessThan_unaryMinus)
  show "\<exists>k s' e. ExpensesPage_onSubmit Number mode data (run ops) = Inr (k, s') \<and>
         getAllExpenses s' = getAllExpenses (run ops) @ [e] \<and>
         Expense.id e = Some k \<and> Expense.date e = Expense.date data \<and>
         description e = description data \<and>
         (mode = mode_add \<longrightarrow> Expense.amount e = Number (Expense.amount data)) \<and>
         (mode = mode_subtract \<longrightarrow>
            Expense.amount e = Number_unaryMinus (Number (Expense.amount data))) \<and>
         Math_abs (Expense.amount e) = Math_abs (Number (Expense.amount data)) \<and>
         (Number_lessThan (Fin 0) (Number (Expense.amount data)) \<longrightarrow>
            (mode = mode_add \<longrightarrow> Number_lessThan (Fin 0) (Expense.amount e)) \<and>
            (mode = mode_subtract \<longrightarrow> Number_lessThan (Expense.amount e) (Fin 0)))"
    using sub all e1 e2 e3 e4 e5 by blast
next
  assume h: "mset shown = mset (getAllExpenses s) \<and>
    map Expense.amount shown = map (\<lambda>n. Fin (of_int n)) ns \<and>
    (\<Sum>n\<leftarrow>ns. \<bar>n\<bar>) \<le> 2 ^ 53"
  then have p: "mset shown = mset (getAllExpenses s)"
    and m: "map Expense.amount shown = map (\<lambda>n. Fin (of_int n)) ns"
    and b: "(\<Sum>n\<leftarrow>ns. \<bar>n\<bar>) \<le> 2 ^ 53" by simp_all
  have v: "(\<Sum>e\<leftarrow>getAllExpenses s. valueOf (Expense.amount e)) = of_int (sum_list ns)"
    using p m by (rule stored_sum_whole)
  show "totalExpenses shown = Fin (\<Sum>e\<leftarrow>getAllExpenses s. valueOf (Expense.amount e))"
    by (simp only: v totalExpenses_whole [OF m b])
  show "netBalance shown = Fin (\<Sum>e\<leftarrow>getAllExpenses s. valueOf (Expense.amount e))"
    by (simp only: v netBalance_whole [OF m b])
  show "netBalance shown = Number_subtract (totalIncome shown) (totalExpense shown)"
    by (rule netBalance_def)
  show "totalIncome shown = Fin (of_int (sum_list (filter (\<lambda>n. 0 < n) ns)))"
    using m b by (rule totalIncome_whole)
  show "totalExpense shown = Fin (of_int (\<Sum>n\<leftarrow>filter (\<lambda>n. n < 0) ns. \<bar>n\<bar>))"
    using m b by (rule totalExpense_whole)
qed

theorem expense_sign_convention_witness:
  "Expense.id \<lparr>Expense.id = None, date = ''2024-01-05'', description = ''Gardener'', amount = ''250''\<rparr> = None \<and>
   (\<exists>s'. ExpensesPage_onSubmit (\<lambda>a. Fin (of_nat (decimalValue a))) mode_subtract
           \<lparr>Expense.id = None, date = ''2024-01-05'', description = ''Gardener'', amount = ''250''\<rparr>
           (run [AddExpense \<lparr>Expense.id = None, date = ''2024-01-03'',
                             description = ''Hall rent'', amount = Fin 1000\<rparr>]) = Inr (2, s') \<and>
         getAllExpenses s' =
           [\<lparr>Expense.id = Some 1, date = ''2024-01-03'', description = ''Hall rent'', amount = Fin 1000\<rparr>,
            \<lparr>Expense.id = Some 2, date = ''2024-01-05'', description = ''Gardener'', amount = Fin (- 250)\<rparr>] \<and>
         mset [\<lparr>Expense.id = Some 2, date = ''2024-01-05'', description = ''Gardener'', amount = Fin (- 250)\<rparr>,
               \<lparr>Expense.id = Some 1, date = ''2024-01-03'', description = ''Hall rent'', amount = Fin 1000\<rparr>]
           = mset (getAllExpenses s')) \<and>
   map Expense.amount
     [\<lparr>Expense.id = Some 2, date = ''2024-01-05'', description = ''Gardener'', amount = Fin (- 250)\<rparr>,
      \<lparr>Expense.id = Some 1, date = ''2024-01-03'', description = ''Hall rent'', amount = Fin 1000\<rparr>]
     = map (\<lambda>n. Fin (of_int n)) [- 250, 1000] \<and>
   (\<Sum>n\<leftarrow>[- 250, 1000 :: int]. \<bar>n\<bar>) \<le> 2 ^ 53 \<and>
   totalExpenses
     [\<lparr>Expense.id = Some 2, date = ''2024-01-05'', description = ''Gardener'', amount = Fin (- 250)\<rparr>,
      \<lparr>Expense.id = Some 1, date = ''2024-01-03'', description = ''Hall rent'', amount = Fin 1000\<rparr>] = Fin 750 \<and>
   netBalance
     [\<lparr>Expense.id = Some 2, date = ''2024-01-05'', description = ''Gardener'', amount = Fin (- 250)\<rparr>,
      \<lparr>Expense.id = Some 1, date = ''2024-01-03'', description = ''Hall rent'', amount = Fin 1000\<rparr>] = Fin 750"
proof -
  let ?N = "\<lambda>a. Fin (of_nat (decimalValue a))"
  let ?e0 = "\<lparr>Expense.id = None, date = ''2024-01-03'', description = ''Hall rent'', amount = Fin 1000\<rparr>"
  let ?d = "\<lparr>Expense.id = None, date = ''2024-01-05'', description = ''Gardener'', amount = ''250''\<rparr>"
  let ?s = "run [AddExpense ?e0]"
  let ?r1 = "\<lparr>Expense.id = Some 1, date = ''2024-01-03'', description = ''Hall rent'', amount = Fin 1000\<rparr>"
  let ?r2 = "\<lparr>Expense.id = Some 2, date = ''2024-01-05'', description = ''Gardener'', amount = Fin (- 250)\<rparr>"
  have h: "Expense.id ?d = None" by simp
  have rd: "?N ''250'' = Fin 250" by (simp add: decimalValue_def)
  have before: "getAllExpenses ?s = [?r1]"
    by (simp add: run_def emptyDB_def addExpense_def db_add_expenses_def Let_def
          getAllExpenses_def db_getAll_expenses_def)
  have ev: "\<exists>s'. ExpensesPage_onSubmit ?N mode_subtract ?d ?s = Inr (2, s')"
    by (simp add: run_def emptyDB_def addExpense_def db_add_expenses_def Let_def
          ExpensesPage_onSubmit_def)
  note t = expense_sign_convention [where data = ?d and Number = ?N and mode = mode_subtract and ops = "[AddExpense ?e0]"]
  have "\<exists>k s' e. ExpensesPage_onSubmit ?N mode_subtract ?d ?s = Inr (k, s') \<and>
         getAllExpenses s' = getAllExpenses ?s @ [e] \<and>
         Expense.id e = Some k \<and> Expense.date e = Expense.date ?d \<and>
         description e = description ?d \<and>
         (mode_subtract = mode_add \<longrightarrow> Expense.amount e = ?N (Expense.amount ?d)) \<and>
         (mode_subtract = mode_subtract \<longrightarrow>
            Expense.amount e = Number_unaryMinus (?N (Expense.amount ?d))) \<and>
         Math_abs (Expense.amount e) = Math_abs (?N (Expense.amount ?d)) \<and>
         (Number_lessThan (Fin 0) (?N (Expense.amount ?d)) \<longrightarrow>
            (mode_subtract = mode_add \<longrightarrow> Number_lessThan (Fin 0) (Expense.amount e)) \<and>
            (mode_subtract = mode_subtract \<longrightarrow> Number_lessThan (Expense.amount e) (Fin 0)))"
    using t [THEN conjunct1] h by (rule mp)
  then obtain k s' e where sub: "ExpensesPage_onSubmit ?N mode_subtract ?d ?s = Inr (k, s')"
    and all: "getAllExpenses s' = getAllExpenses ?s @ [e]"
    and e: "Expense.id e = Some k" "Expense.date e = Expense.date ?d" "description e = description ?d"
    and a: "Expense.amount e = Number_unaryMinus (?N (Expense.amount ?d))"
    by blast
  have k: "k = 2" using ev sub by auto
  have a': "Expense.amount e = Fin (- 250)" using a rd by simp
  have "e = ?r2" using e a' k by (cases e) simp
  then have all': "getAllExpenses s' = [?r1, ?r2]" using all before by simp
  have m: "mset [?r2, ?r1] = mset (getAllExpenses s')" by (simp add: all')
  have am: "map Expense.amount [?r2, ?r1] = map (\<lambda>n. Fin (of_int n)) [- 250, 1000]" by simp
  have bd: "(\<Sum>n\<leftarrow>[- 250, 1000 :: int]. \<bar>n\<bar>) \<le> 2 ^ 53" by simp
  have hyp: "mset [?r2, ?r1] = mset (getAllExpenses s') \<and>
    map Expense.amount [?r2, ?r1] = map (\<lambda>n. Fin (of_int n)) [- 250, 1000] \<and>
    (\<Sum>n\<leftarrow>[- 250, 1000 :: int]. \<bar>n\<bar>) \<le> 2 ^ 53"
    using m am bd by blast
  have sums: "totalExpenses [?r2, ?r1] = Fin (\<Sum>e\<leftarrow>getAllExpenses s'. valueOf (Expense.amount e)) \<and>
      netBalance [?r2, ?r1] = Fin (\<Sum>e\<leftarrow>getAllExpenses s'. valueOf (Expense.amount e)) \<and>
      netBalance [?r2, ?r1] = Number_subtract (totalIncome [?r2, ?r1]) (totalExpense [?r2, ?r1]) \<and>
      totalIncome [?r2, ?r1] = Fin (of_int (sum_list (filter (\<lambda>n. 0 < n) [- 250, 1000]))) \<and>
      totalExpense [?r2, ?r1] = Fin (of_int (\<Sum>n\<leftarrow>filter (\<lambda>n. n < 0) [- 250, 1000]. \<bar>n\<bar>))"
    using expense_sign_convention [where shown = "[?r2, ?r1]" and s = s' and ns = "[- 250, 1000]", THEN conjunct2] hyp
    by (rule mp)
  have v: "(\<Sum>e\<leftarrow>getAllExpenses s'. valueOf (Expense.amount e)) = 750" by (simp add: all')
  have t1: "totalExpenses [?r2, ?r1] = Fin 750" using sums by (simp only: v)
  have t2: "netBalance [?r2, ?r1] = Fin 750" using sums by (simp only: v)
  have "\<exists>s'. ExpensesPage_onSubmit ?N mode_subtract ?d ?s = Inr (2, s') \<and>
         getAllExpenses s' = [?r1, ?r2] \<and> mset [?r2, ?r1] = mset (getAllExpenses s')"
    using sub k all' m by blast
  with h am bd t1 t2 show ?thesis by blast
qed

end
